theory Spec2Isabelle
  imports Complex_Main "HOL-Library.Sublist" "HOL-Library.Word"
begin

section \<open>tsplice: the transcript selection controller and the compile planner\<close>

text \<open>
  A shallow embedding of the Go program: the Bubble Tea model of \<^verbatim>\<open>main.go\<close> and
  \<^verbatim>\<open>structs.go\<close> (\<^verbatim>\<open>Init\<close>, \<^verbatim>\<open>Update\<close>, the end of \<^verbatim>\<open>main\<close>) and the helper
  functions \<^verbatim>\<open>getEndTime\<close>, \<^verbatim>\<open>addSecondsToTimestamp\<close>, \<^verbatim>\<open>compileVideoSegments\<close> and
  \<^verbatim>\<open>parseTimeToSeconds\<close>.

  Go strings are byte sequences and so are HOL strings. Go's \<^verbatim>\<open>int\<close> is taken to be
  64 bits wide and wraps around. A \<^verbatim>\<open>float64\<close> is modelled by an exact rational
  number: rounding to the nearest double is not part of the model.
\<close>

subsection \<open>Library functions on strings\<close>

text \<open>\<^verbatim>\<open>strings.Index\<close>: the position of the first occurrence, \<open>None\<close> for Go's \<open>-1\<close>.\<close>

fun strings_Index :: "string \<Rightarrow> string \<Rightarrow> nat option" where
  "strings_Index [] sep = (if sep = [] then Some 0 else None)"
| "strings_Index (c # cs) sep =
     (if prefix sep (c # cs) then Some 0 else map_option Suc (strings_Index cs sep))"

lemma Index_Some_nonempty: "strings_Index s sep = Some m \<Longrightarrow> sep \<noteq> [] \<Longrightarrow> s \<noteq> []"
  by (cases s) auto

text \<open>
  \<^verbatim>\<open>strings.Split\<close>: cut at every occurrence of the separator, leftmost first. The
  empty separator explodes the string (into bytes here, into UTF-8 sequences in Go); no
  call of the program passes one.
\<close>

function Split :: "string \<Rightarrow> string \<Rightarrow> string list" where
  "Split s sep =
     (if sep = [] then map (\<lambda>c. [c]) s
      else case strings_Index s sep of
             None \<Rightarrow> [s]
           | Some m \<Rightarrow> take m s # Split (drop (m + length sep) s) sep)"
  by pat_completeness auto
termination
proof (relation "measure (\<lambda>(s, sep). length s)")
  show "wf (measure (\<lambda>(s, sep). length s))" by simp
next
  fix s sep :: string and m :: nat
  assume "sep \<noteq> []" and "strings_Index s sep = Some m"
  then have "s \<noteq> []" by (rule Index_Some_nonempty[rotated])
  with \<open>sep \<noteq> []\<close> show "((drop (m + length sep) s, sep), (s, sep)) \<in> measure (\<lambda>(s, sep). length s)"
    by (cases s) auto
qed

text \<open>\<^verbatim>\<open>strings.Join\<close>.\<close>

fun Join :: "string list \<Rightarrow> string \<Rightarrow> string" where
  "Join [] sep = []"
| "Join [x] sep = x"
| "Join (x # y # ys) sep = x @ sep @ Join (y # ys) sep"

subsection \<open>Machine integers and decimal text\<close>

text \<open>A Go \<^verbatim>\<open>int\<close> after an arithmetic operation: the result wraps around at 64 bits.\<close>

definition wrap64 :: "int \<Rightarrow> int" where
  "wrap64 x = sint (word_of_int x :: 64 word)"

definition isDigit :: "char \<Rightarrow> bool" where
  "isDigit c = (48 \<le> (of_char c :: nat) \<and> (of_char c :: nat) \<le> 57)"

definition digitVal :: "char \<Rightarrow> int" where
  "digitVal c = int (of_char c) - 48"

definition digitChar :: "nat \<Rightarrow> char" where
  "digitChar d = char_of (48 + d)"

text \<open>The value of a string of decimal digits, most significant digit first.\<close>

definition decimal :: "string \<Rightarrow> int" where
  "decimal ds = foldl (\<lambda>a c. 10 * a + digitVal c) 0 ds"

text \<open>The decimal digits of a natural number (\<^verbatim>\<open>%d\<close> of a non-negative value).\<close>

fun dec :: "nat \<Rightarrow> string" where
  "dec n = (if n < 10 then [digitChar n] else dec (n div 10) @ [digitChar (n mod 10)])"

declare dec.simps [simp del]

text \<open>\<^verbatim>\<open>fmt.Sprintf("%d", n)\<close>.\<close>

definition fmt_d :: "int \<Rightarrow> string" where
  "fmt_d n = (if n < 0 then ''-'' @ dec (nat (- n)) else dec (nat n))"

text \<open>
  \<^verbatim>\<open>fmt.Sprintf("%02d", n)\<close>: at least two characters, padded with zeros after the
  sign.
\<close>

definition fmt_02d :: "int \<Rightarrow> string" where
  "fmt_02d n = (if 0 \<le> n \<and> n < 10 then ''0'' @ dec (nat n) else fmt_d n)"

text \<open>Zero padding of a natural number to a given width.\<close>

definition pad0 :: "nat \<Rightarrow> nat \<Rightarrow> string" where
  "pad0 w n = replicate (w - length (dec n)) (CHR ''0'') @ dec n"

text \<open>
  Rounding to the nearest integer, ties to even: the rounding \<^verbatim>\<open>%.3f\<close> applies to the
  thousandths of its argument.
\<close>

definition roundHalfEven :: "rat \<Rightarrow> int" where
  "roundHalfEven x =
     (let f = \<lfloor>x\<rfloor>; d = x - of_int f
      in if d < 1 / 2 then f else if 1 / 2 < d then f + 1 else if even f then f else f + 1)"


text \<open>\<^verbatim>\<open>fmt.Sprintf("%.3f", x)\<close>.\<close>

definition fmt_3f :: "rat \<Rightarrow> string" where
  "fmt_3f x =
     (let k = roundHalfEven (\<bar>x\<bar> * 1000)
      in (if x < 0 then ''-'' else []) @ dec (nat (k div 1000)) @ ''.'' @ pad0 3 (nat (k mod 1000)))"

subsection \<open>Scanning with \<^verbatim>\<open>fmt.Sscanf\<close>\<close>

text \<open>
  The errors of the scanner. \<open>Unsupported\<close> is not an error of the library: it marks
  input on which this model of the scanner gives no answer (white space outside ASCII
  and the floating-point forms with an exponent, a hexadecimal mantissa, digit
  separators, infinities and NaN).
\<close>

datatype scan_error =
  UnexpectedEOF | UnexpectedNewline | ExpectedInteger | SyntaxError | RangeError
  | InputMismatch | Unsupported

definition isSpace :: "char \<Rightarrow> bool" where
  "isSpace c = ((9 \<le> (of_char c :: nat) \<and> (of_char c :: nat) \<le> 13) \<or> c = CHR '' '')"

text \<open>
  \<^verbatim>\<open>SkipSpace\<close> of a scan state made by \<^verbatim>\<open>Sscanf\<close>: a newline is not white space
  there but an error.
\<close>

fun SkipSpace :: "string \<Rightarrow> scan_error + string" where
  "SkipSpace [] = Inr []"
| "SkipSpace (c # cs) =
     (if c = CHR 0x0A then Inl UnexpectedNewline
      else if isSpace c then SkipSpace cs
      else if 128 \<le> (of_char c :: nat) then Inl Unsupported
      else Inr (c # cs))"

definition isDigitOrUnderscore :: "char \<Rightarrow> bool" where
  "isDigitOrUnderscore c = (isDigit c \<or> c = CHR ''_'')"

definition isSign :: "char \<Rightarrow> bool" where
  "isSign c = (c = CHR ''+'' \<or> c = CHR ''-'')"

text \<open>
  The verb \<^verbatim>\<open>%d\<close> into an \<^verbatim>\<open>int\<close>: skip white space, accept a sign, read digits and
  underscores, and convert the token with \<^verbatim>\<open>strconv.ParseInt(tok, 10, 64)\<close>, which
  refuses underscores and values outside 64 bits. The result is the value and the
  input left over.
\<close>

definition scanInt :: "string \<Rightarrow> scan_error + (int \<times> string)" where
  "scanInt s =
     (case SkipSpace s of
        Inl e \<Rightarrow> Inl e
      | Inr s1 \<Rightarrow>
          if s1 = [] then Inl UnexpectedEOF
          else
            let neg = (hd s1 = CHR ''-'');
                s2 = (if isSign (hd s1) then tl s1 else s1);
                tok = takeWhile isDigitOrUnderscore s2;
                rest = dropWhile isDigitOrUnderscore s2
            in if s2 = [] then Inl UnexpectedEOF
               else if tok = [] then Inl ExpectedInteger
               else if CHR ''_'' \<in> set tok then Inl SyntaxError
               else
                 let v = (if neg then - decimal tok else decimal tok)
                 in if v < - (2 ^ 63) \<or> 2 ^ 63 \<le> v then Inl RangeError else Inr (v, rest))"

text \<open>\<^verbatim>\<open>fmt.Sscanf(str, "%d", &v)\<close>: input after the number is ignored.\<close>

definition Sscanf_d :: "string \<Rightarrow> scan_error + int" where
  "Sscanf_d str = (case scanInt str of Inl e \<Rightarrow> Inl e | Inr (v, rest) \<Rightarrow> Inr v)"

text \<open>A literal character of the format.\<close>

definition scanLiteral :: "char \<Rightarrow> string \<Rightarrow> scan_error + string" where
  "scanLiteral c s =
     (case s of [] \<Rightarrow> Inl UnexpectedEOF | x # xs \<Rightarrow> if x = c then Inr xs else Inl InputMismatch)"

text \<open>
  The verb \<^verbatim>\<open>%f\<close> into a \<^verbatim>\<open>float64\<close>, for plain decimal tokens: an optional sign,
  digits, an optional period and digits. \<^verbatim>\<open>strconv.ParseFloat\<close> wants a digit in the
  token and a value that does not round to infinity: one below \<open>float64Overflow\<close>, half
  a unit in the last place above the largest double.
\<close>

definition float64Overflow :: rat where
  "float64Overflow = 2 ^ 1024 - 2 ^ 970"

definition scanFloat :: "string \<Rightarrow> scan_error + (rat \<times> string)" where
  "scanFloat s =
     (case SkipSpace s of
        Inl e \<Rightarrow> Inl e
      | Inr s1 \<Rightarrow>
          if s1 = [] then Inl UnexpectedEOF
          else if hd s1 \<in> set ''nNiI'' then Inl Unsupported
          else
            let neg = (hd s1 = CHR ''-'');
                s2 = (if isSign (hd s1) then tl s1 else s1);
                ip = takeWhile isDigitOrUnderscore s2;
                r = dropWhile isDigitOrUnderscore s2;
                dot = (r \<noteq> [] \<and> hd r = CHR ''.'');
                fp = (if dot then takeWhile isDigitOrUnderscore (tl r) else []);
                rest = (if dot then dropWhile isDigitOrUnderscore (tl r) else r)
            in if s2 \<noteq> [] \<and> hd s2 \<in> set ''iI'' then Inl Unsupported
               else if prefix ''0x'' s2 \<or> prefix ''0X'' s2 then Inl Unsupported
               else if rest \<noteq> [] \<and> hd rest \<in> set ''eEpP'' then Inl Unsupported
               else if CHR ''_'' \<in> set (ip @ fp) then Inl Unsupported
               else if ip = [] \<and> fp = [] then Inl SyntaxError
               else
                 let a = of_int (decimal ip) + of_int (decimal fp) / 10 ^ length fp;
                     v = (if neg then - a else a)
                 in if float64Overflow \<le> a then Inl RangeError else Inr (v, rest))"

text \<open>\<^verbatim>\<open>fmt.Sscanf(timeStr, "%d:%d:%f", &hours, &minutes, &seconds)\<close>.\<close>

definition Sscanf_d_d_f :: "string \<Rightarrow> scan_error + (int \<times> int \<times> rat)" where
  "Sscanf_d_d_f str =
     (case scanInt str of
        Inl e \<Rightarrow> Inl e
      | Inr (hours, r1) \<Rightarrow>
          (case scanLiteral (CHR '':'') r1 of
             Inl e \<Rightarrow> Inl e
           | Inr r2 \<Rightarrow>
               (case scanInt r2 of
                  Inl e \<Rightarrow> Inl e
                | Inr (minutes, r3) \<Rightarrow>
                    (case scanLiteral (CHR '':'') r3 of
                       Inl e \<Rightarrow> Inl e
                     | Inr r4 \<Rightarrow>
                         (case scanFloat r4 of
                            Inl e \<Rightarrow> Inl e
                          | Inr (seconds, r5) \<Rightarrow> Inr (hours, minutes, seconds))))))"

subsection \<open>Timestamp utilities\<close>

text \<open>
  \<^verbatim>\<open>parseTimeToSeconds\<close>. The products \<^verbatim>\<open>hours*3600\<close> and \<^verbatim>\<open>minutes*60\<close> are computed
  in \<^verbatim>\<open>int\<close> before the conversion to \<^verbatim>\<open>float64\<close>.
\<close>

definition parseTimeToSeconds :: "string \<Rightarrow> scan_error + rat" where
  "parseTimeToSeconds timeStr =
     (case Sscanf_d_d_f timeStr of
        Inl err \<Rightarrow> Inl err
      | Inr (hours, minutes, seconds) \<Rightarrow>
          Inr (of_int (wrap64 (hours * 3600)) + of_int (wrap64 (minutes * 60)) + seconds))"

text \<open>
  \<^verbatim>\<open>addSecondsToTimestamp\<close>. The error of \<^verbatim>\<open>Sscanf\<close> is dropped, and \<^verbatim>\<open>currentSec\<close>
  keeps its initial value 0 when the scan fails.
\<close>

definition addSecondsToTimestamp :: "string \<Rightarrow> int \<Rightarrow> string" where
  "addSecondsToTimestamp timestamp seconds =
     (let parts = Split timestamp '':''
      in if length parts \<noteq> 3 then timestamp
         else
           let secParts = Split (parts ! 2) ''.''
           in if length secParts \<noteq> 2 then timestamp
              else
                let currentSec = (case Sscanf_d (secParts ! 0) of Inl e \<Rightarrow> 0 | Inr v \<Rightarrow> v);
                    newSec = wrap64 (currentSec + seconds);
                    newSec = (if 60 \<le> newSec then 59 else newSec)
                in parts ! 0 @ '':'' @ parts ! 1 @ '':'' @ fmt_02d newSec @ ''.'' @ secParts ! 1)"

subsection \<open>The data model of \<^verbatim>\<open>structs.go\<close>\<close>

record TranscriptItem =
  StartTime :: string
  EndTime :: string
  Text :: string

record item =
  title :: string
  timestamp :: string
  selected :: bool

text \<open>
  The list component (\<^verbatim>\<open>list.Model\<close> of the bubbles library) as far as the program
  reads and writes it: \<^verbatim>\<open>Items()\<close>, \<^verbatim>\<open>SetItems\<close> and \<^verbatim>\<open>Index()\<close>. The interface
  \<^verbatim>\<open>list.Item\<close> has one implementation in the program, \<^verbatim>\<open>item\<close>, so every type
  assertion \<^verbatim>\<open>.(item)\<close> succeeds and the list holds values of \<open>item\<close>.
\<close>

record list_Model =
  Items :: "item list"
  Index :: int

definition list_New :: "item list \<Rightarrow> list_Model" where
  "list_New its = \<lparr>Items = its, Index = 0\<rparr>"

definition SetItems :: "list_Model \<Rightarrow> item list \<Rightarrow> list_Model" where
  "SetItems l its = l\<lparr>Items := its\<rparr>"

text \<open>The spinner and the styles hold rendering state only and are left out.\<close>

record model =
  loading :: bool
  loadingMsg :: string
  list :: list_Model
  quitting :: bool
  inputFile :: string
  errorMsg :: string
  transcriptItems :: "TranscriptItem list"
  statuses :: "string list"

text \<open>The messages \<^verbatim>\<open>Update\<close> distinguishes.\<close>

datatype msg =
  KeyMsg string
  | audioExtractedMsg string
  | transcriptionDoneMsg string "TranscriptItem list"
  | videoCompilationDoneMsg string
  | errorMsg' string
  | spinner_TickMsg
  | otherMsg

text \<open>
  What a call of \<^verbatim>\<open>Update\<close> or \<^verbatim>\<open>Init\<close> hands to the runtime: the commands it returns
  (\<^verbatim>\<open>tea.Batch\<close> is the list of its arguments, \<^verbatim>\<open>nil\<close> the empty list) and the
  goroutine it starts for a preview.
\<close>

datatype cmd =
  tea_Quit
  | spinner_Tick
  | extractAudioCmd string
  | transcribeAudioCmd string
  | compileVideoCmd string "item list"
  | go_previewVideo string string string
  | list_cmd
  | spinner_cmd

text \<open>The list items made from the transcript, in \<^verbatim>\<open>main\<close> and in \<^verbatim>\<open>Update\<close>.\<close>

definition toListItems :: "TranscriptItem list \<Rightarrow> item list" where
  "toListItems ts =
     map (\<lambda>transcriptItem.
            \<lparr>title = Text transcriptItem,
             timestamp = StartTime transcriptItem @ '' - '' @ EndTime transcriptItem,
             selected = False\<rparr>) ts"

subsection \<open>The preview range\<close>

text \<open>
  \<^verbatim>\<open>getEndTime\<close>. Its caller has checked \<open>0 \<le> currentIndex < len(items)\<close>. The last
  return of the source answers a failed type assertion and has no counterpart here.
\<close>

definition getEndTime :: "item list \<Rightarrow> int \<Rightarrow> string" where
  "getEndTime items currentIndex =
     (if currentIndex + 1 < int (length items)
      then hd (Split (timestamp (items ! nat (currentIndex + 1))) '' - '')
      else addSecondsToTimestamp (hd (Split (timestamp (items ! nat currentIndex)) '' - '')) 10)"

subsection \<open>The compile planner\<close>

record segment =
  seg_start :: rat
  seg_end :: rat

datatype compile_error =
  CouldNotParseStart string scan_error
  | CouldNotParseEnd string scan_error
  | NoSegmentsSelected
  | FailedToCompile

text \<open>
  The first loop of \<^verbatim>\<open>compileVideoSegments\<close>: the selected items whose timestamp splits
  into two parts at \<^verbatim>\<open>" - "\<close> give a segment each, the other items are passed over,
  and the first timecode that does not scan ends the function with an error.
\<close>

fun collectSegments :: "item list \<Rightarrow> segment list \<Rightarrow> compile_error + segment list" where
  "collectSegments [] segments = Inr segments"
| "collectSegments (i # rest) segments =
     (if selected i then
        (let timestamps = Split (timestamp i) '' - ''
         in if length timestamps = 2 then
              (case parseTimeToSeconds (timestamps ! 0) of
                 Inl err \<Rightarrow> Inl (CouldNotParseStart (timestamps ! 0) err)
               | Inr start \<Rightarrow>
                   (case parseTimeToSeconds (timestamps ! 1) of
                      Inl err \<Rightarrow> Inl (CouldNotParseEnd (timestamps ! 1) err)
                    | Inr end' \<Rightarrow>
                        collectSegments rest (segments @ [\<lparr>seg_start = start, seg_end = end'\<rparr>])))
            else collectSegments rest segments)
      else collectSegments rest segments)"

text \<open>One operand of the filter: \<^verbatim>\<open>fmt.Sprintf("between(t,%.3f,%.3f)", start, end)\<close>.\<close>

definition filterPart :: "segment \<Rightarrow> string" where
  "filterPart sg = ''between(t,'' @ fmt_3f (seg_start sg) @ '','' @ fmt_3f (seg_end sg) @ '')''"

text \<open>
  What \<^verbatim>\<open>compileVideoSegments\<close> has computed when it starts ffmpeg: the segments, the
  select expression and the two filter arguments built from it.
\<close>

record compile_plan =
  segments :: "segment list"
  selectFilter :: string
  vf :: string
  af :: string

definition compilePlan :: "item list \<Rightarrow> compile_error + compile_plan" where
  "compilePlan items =
     (case collectSegments items [] of
        Inl e \<Rightarrow> Inl e
      | Inr segs \<Rightarrow>
          if length segs = 0 then Inl NoSegmentsSelected
          else
            let sf = Join (map filterPart segs) ''+''
            in Inr \<lparr>segments = segs, selectFilter = sf,
                    vf = ''select='' @ [CHR 0x27] @ sf @ [CHR 0x27] @ '',setpts=N/FRAME_RATE/TB'',
                    af = ''aselect='' @ [CHR 0x27] @ sf @ [CHR 0x27] @ '',asetpts=N/SR/TB''\<rparr>)"

text \<open>
  \<^verbatim>\<open>compileVideoSegments\<close>. The output path is made with the \<^verbatim>\<open>filepath\<close> library and
  ffmpeg is an external process: \<open>outputPath\<close> stands for the first, and \<open>ffmpeg\<close>,
  which tells whether the process with these arguments ended without error, for the
  second.
\<close>

definition compileVideoSegments ::
  "(string \<Rightarrow> string) \<Rightarrow> (string list \<Rightarrow> bool) \<Rightarrow> string \<Rightarrow> item list \<Rightarrow> compile_error + string" where
  "compileVideoSegments outputPath ffmpeg inputFile' items =
     (case compilePlan items of
        Inl e \<Rightarrow> Inl e
      | Inr p \<Rightarrow>
          let outputFile = outputPath inputFile'
          in if ffmpeg [''ffmpeg'', ''-y'', ''-i'', inputFile', ''-vf'', vf p, ''-af'', af p, outputFile]
             then Inr outputFile
             else Inl FailedToCompile)"

text \<open>
  The meaning ffmpeg gives to the select expression. \<^verbatim>\<open>between(x, min, max)\<close> is 1 when
  \<open>min \<le> x \<le> max\<close> and 0 otherwise, \<^verbatim>\<open>+\<close> is addition, and the filters \<^verbatim>\<open>select\<close> and
  \<^verbatim>\<open>aselect\<close> keep a frame when the expression is not zero at its time \<open>t\<close>. The
  operands are the numbers printed by \<^verbatim>\<open>%.3f\<close>.
\<close>

definition between :: "rat \<Rightarrow> rat \<Rightarrow> rat \<Rightarrow> rat" where
  "between x lo hi = (if lo \<le> x \<and> x \<le> hi then 1 else 0)"



subsection \<open>The selection controller: \<^verbatim>\<open>Init\<close> and \<^verbatim>\<open>Update\<close>\<close>

definition Init :: "model \<Rightarrow> cmd list" where
  "Init m = (if loading m then [spinner_Tick, extractAudioCmd (inputFile m)] else [])"

text \<open>
  \<^verbatim>\<open>Update\<close> of \<^verbatim>\<open>main.go\<close>. Keys the program does not handle itself go to the list
  component while nothing is loading; \<open>listUpdate\<close> stands for \<^verbatim>\<open>list.Model.Update\<close> of
  the bubbles library (cursor movement, filtering, paging). It returns the new list and
  whether it returns a command of its own.
\<close>

definition Update ::
  "(list_Model \<Rightarrow> string \<Rightarrow> list_Model \<times> bool) \<Rightarrow> model \<Rightarrow> msg \<Rightarrow> model \<times> cmd list" where
  "Update listUpdate m message =
     (case message of
        KeyMsg k \<Rightarrow>
          if k = ''q'' \<or> k = ''ctrl+c'' then (m\<lparr>quitting := True\<rparr>, [tea_Quit])
          else if k = ''enter'' \<or> k = '' '' then
            (if \<not> loading m \<and> 0 < length (Items (list m)) then
               (let selectedIndex = Index (list m)
                in if 0 \<le> selectedIndex \<and> selectedIndex < int (length (Items (list m))) then
                     (let items = Items (list m);
                          i = items ! nat selectedIndex;
                          i = i\<lparr>selected := \<not> selected i\<rparr>;
                          items = items[nat selectedIndex := i]
                      in (m\<lparr>list := SetItems (list m) items\<rparr>, []))
                   else (m, []))
             else (m, []))
          else if k = ''p'' then
            (if \<not> loading m \<and> 0 < length (Items (list m)) then
               (let selectedIndex = Index (list m)
                in if 0 \<le> selectedIndex \<and> selectedIndex < int (length (Items (list m))) then
                     (let items = Items (list m);
                          i = items ! nat selectedIndex;
                          startTime = hd (Split (timestamp i) '' - '')
                      in (m, [go_previewVideo (inputFile m) startTime (getEndTime items selectedIndex)]))
                   else (m, []))
             else (m, []))
          else if k = ''c'' then
            (if \<not> loading m \<and> 0 < length (Items (list m)) then
               (let items = Items (list m);
                    hasSelected = list_ex selected items
                in if hasSelected then
                     (m\<lparr>loading := True, loadingMsg := ''Compiling video segments with ffmpeg...''\<rparr>,
                      [spinner_Tick, compileVideoCmd (inputFile m) items])
                   else (m, []))
             else (m, []))
          else if \<not> loading m then
            (let (l, c) = listUpdate (list m) k in (m\<lparr>list := l\<rparr>, if c then [list_cmd] else []))
          else (m, [])
      | audioExtractedMsg audioFile \<Rightarrow>
          (m\<lparr>statuses := statuses m @ [''Audio extracted from ffmpeg.''],
             loadingMsg := ''Transcribing with OpenAI Whisper...''\<rparr>,
           [transcribeAudioCmd audioFile])
      | transcriptionDoneMsg vttContent items' \<Rightarrow>
          (m\<lparr>statuses := statuses m @ [''Transcription finished and saved locally.''],
             loading := False,
             transcriptItems := items',
             list := list_New (toListItems items')\<rparr>, [])
      | videoCompilationDoneMsg outputFile \<Rightarrow>
          (m\<lparr>statuses := statuses m @ [''Video compiled successfully.'']
                               @ [''Saved output to '' @ outputFile],
             loading := False,
             quitting := True\<rparr>, [tea_Quit])
      | errorMsg' err \<Rightarrow>
          (m\<lparr>statuses := statuses m @ [err], loading := False, errorMsg := err\<rparr>, [])
      | spinner_TickMsg \<Rightarrow> (if loading m then (m, [spinner_cmd]) else (m, []))
      | otherMsg \<Rightarrow> (m, []))"

text \<open>A run of the event loop: the messages are handled one at a time, in order.\<close>

fun run :: "(list_Model \<Rightarrow> string \<Rightarrow> list_Model \<times> bool) \<Rightarrow> model \<Rightarrow> msg list \<Rightarrow> model \<times> cmd list" where
  "run listUpdate m [] = (m, [])"
| "run listUpdate m (x # xs) =
     (let (m1, c1) = Update listUpdate m x;
          (m2, c2) = run listUpdate m1 xs
      in (m2, c1 @ c2))"

definition isPreview :: "cmd \<Rightarrow> bool" where
  "isPreview c = (case c of go_previewVideo f s e \<Rightarrow> True | _ \<Rightarrow> False)"

definition isCompile :: "cmd \<Rightarrow> bool" where
  "isCompile c = (case c of compileVideoCmd f its \<Rightarrow> True | _ \<Rightarrow> False)"

definition isExtractOrTranscribe :: "cmd \<Rightarrow> bool" where
  "isExtractOrTranscribe c =
     (case c of extractAudioCmd f \<Rightarrow> True | transcribeAudioCmd f \<Rightarrow> True | _ \<Rightarrow> False)"

text \<open>
  The messages that clear the loading flag: the result of a compilation, an error and
  the end of a transcription.
\<close>

definition resolves :: "msg \<Rightarrow> bool" where
  "resolves x =
     (case x of videoCompilationDoneMsg f \<Rightarrow> True | errorMsg' e \<Rightarrow> True
      | transcriptionDoneMsg v ts \<Rightarrow> True | _ \<Rightarrow> False)"

subsection \<open>The transcript file\<close>

text \<open>\<^verbatim>\<open>strings.TrimSuffix\<close>, \<^verbatim>\<open>filepath.Ext\<close> and \<^verbatim>\<open>filepath.Base\<close> (separator \<^verbatim>\<open>/\<close>).\<close>

definition TrimSuffix :: "string \<Rightarrow> string \<Rightarrow> string" where
  "TrimSuffix s suf = (if suffix suf s then take (length s - length suf) s else s)"

fun extFrom :: "string \<Rightarrow> string \<Rightarrow> string" where
  "extFrom [] acc = []"
| "extFrom (c # cs) acc =
     (if c = CHR ''/'' then []
      else if c = CHR ''.'' then c # acc
      else extFrom cs (c # acc))"

definition filepath_Ext :: "string \<Rightarrow> string" where
  "filepath_Ext path = extFrom (rev path) []"

definition filepath_Base :: "string \<Rightarrow> string" where
  "filepath_Base path =
     (if path = [] then ''.''
      else
        let p = rev (dropWhile (\<lambda>c. c = CHR ''/'') (rev path));
            q = rev (takeWhile (\<lambda>c. c \<noteq> CHR ''/'') (rev p))
        in if q = [] then ''/'' else q)"

definition vttFileOf :: "string \<Rightarrow> string" where
  "vttFileOf inputFile' =
     (let basename = TrimSuffix (filepath_Base inputFile') (filepath_Ext inputFile')
      in basename @ ''.vtt'')"

text \<open>
  \<^verbatim>\<open>strings.TrimSpace\<close>: white space is cut from both ends. The white space of Unicode
  is the six ASCII characters and the code points U+0085, U+00A0, U+1680, U+2000 to
  U+200A, U+2028, U+2029, U+202F, U+205F and U+3000, here in UTF-8.
\<close>

definition spaceSeqs :: "string list" where
  "spaceSeqs =
     map (\<lambda>c. [c]) [CHR 0x09, CHR 0x0A, CHR 0x0B, CHR 0x0C, CHR 0x0D, CHR 0x20]
     @ [[CHR 0xC2, CHR 0x85], [CHR 0xC2, CHR 0xA0], [CHR 0xE1, CHR 0x9A, CHR 0x80]]
     @ map (\<lambda>c. [CHR 0xE2, CHR 0x80, c])
         [CHR 0x80, CHR 0x81, CHR 0x82, CHR 0x83, CHR 0x84, CHR 0x85, CHR 0x86, CHR 0x87,
          CHR 0x88, CHR 0x89, CHR 0x8A, CHR 0xA8, CHR 0xA9, CHR 0xAF]
     @ [[CHR 0xE2, CHR 0x81, CHR 0x9F], [CHR 0xE3, CHR 0x80, CHR 0x80]]"

function stripPrefixes :: "string list \<Rightarrow> string \<Rightarrow> string" where
  "stripPrefixes qs s =
     (case find (\<lambda>q. q \<noteq> [] \<and> prefix q s) qs of
        None \<Rightarrow> s
      | Some q \<Rightarrow> stripPrefixes qs (drop (length q) s))"
  by pat_completeness auto
termination
proof (relation "measure (\<lambda>(qs, s). length s)")
  show "wf (measure (\<lambda>(qs, s). length s))" by simp
next
  fix qs :: "string list" and s q :: string
  assume "find (\<lambda>q. q \<noteq> [] \<and> prefix q s) qs = Some q"
  then have "q \<noteq> [] \<and> prefix q s" by (auto simp: find_Some_iff)
  then show "((qs, drop (length q) s), (qs, s)) \<in> measure (\<lambda>(qs, s). length s)"
    by (cases s) (auto simp: prefix_def)
qed

definition TrimSpace :: "string \<Rightarrow> string" where
  "TrimSpace s = rev (stripPrefixes (map rev spaceSeqs) (rev (stripPrefixes spaceSeqs s)))"

text \<open>A timecode as the regular expression of \<^verbatim>\<open>parseVTT\<close> wants it: \<^verbatim>\<open>\d{2}:\d{2}:\d{2}\.\d{3}\<close>.\<close>

fun wf_timecode :: "string \<Rightarrow> bool" where
  "wf_timecode [h1, h2, c1, m1, m2, c2, s1, s2, p, d1, d2, d3] =
     (isDigit h1 \<and> isDigit h2 \<and> c1 = CHR '':'' \<and> isDigit m1 \<and> isDigit m2 \<and> c2 = CHR '':''
      \<and> isDigit s1 \<and> isDigit s2 \<and> p = CHR ''.'' \<and> isDigit d1 \<and> isDigit d2 \<and> isDigit d3)"
| "wf_timecode s = False"

text \<open>
  The match of \<^verbatim>\<open>^(\d{2}:\d{2}:\d{2}\.\d{3}) --> (\d{2}:\d{2}:\d{2}\.\d{3})\<close> at the start
  of a line: the two groups.
\<close>

definition timeStampMatch :: "string \<Rightarrow> (string \<times> string) option" where
  "timeStampMatch line =
     (if wf_timecode (take 12 line) \<and> take 5 (drop 12 line) = '' --> ''
         \<and> wf_timecode (take 12 (drop 17 line))
      then Some (take 12 line, take 12 (drop 17 line)) else None)"

text \<open>The loop of \<^verbatim>\<open>parseVTT\<close>, with the pending start and end time as state.\<close>

fun parseLines :: "string list \<Rightarrow> string \<Rightarrow> string \<Rightarrow> TranscriptItem list \<Rightarrow> TranscriptItem list" where
  "parseLines [] currentStartTime currentEndTime acc = acc"
| "parseLines (l # ls) currentStartTime currentEndTime acc =
     (let line = TrimSpace l
      in case timeStampMatch line of
           Some (a, b) \<Rightarrow> parseLines ls a b acc
         | None \<Rightarrow>
             if prefix ''WEBVTT'' line \<or> line = [] then parseLines ls currentStartTime currentEndTime acc
             else if line \<noteq> [] \<and> currentStartTime \<noteq> [] then
               parseLines ls [] []
                 (acc @ [\<lparr>StartTime = currentStartTime, EndTime = currentEndTime, Text = line\<rparr>])
             else parseLines ls currentStartTime currentEndTime acc)"

definition parseVTT :: "string \<Rightarrow> TranscriptItem list" where
  "parseVTT vttContent = parseLines (Split vttContent [CHR 0x0A]) [] [] []"

text \<open>
  The end of \<^verbatim>\<open>main\<close>, from the test for the transcript file on: the input file has
  passed the checks before, \<open>readFile path\<close> is the content of the file at \<open>path\<close> when
  \<^verbatim>\<open>os.Stat\<close> finds it and \<^verbatim>\<open>os.ReadFile\<close> reads it, and \<open>exists path\<close> tells whether
  \<^verbatim>\<open>os.Stat\<close> finds it. The program ends with status 1 when the file is there and
  cannot be read. \<^verbatim>\<open>parseVTT\<close> never returns an error.
\<close>

datatype startup = Exit nat | Program model

definition initialModel :: "(string \<Rightarrow> bool) \<Rightarrow> (string \<Rightarrow> string option) \<Rightarrow> string \<Rightarrow> startup" where
  "initialModel exists readFile inputFile' =
     (let vttFile = vttFileOf inputFile';
          m = \<lparr>loading = True, loadingMsg = ''Extracting audio with ffmpeg...'',
               list = list_New [], quitting = False, inputFile = inputFile', errorMsg = [],
               transcriptItems = [], statuses = []\<rparr>
      in if exists vttFile then
           (case readFile vttFile of
              None \<Rightarrow> Exit 1
            | Some vttBytes \<Rightarrow>
                let ts = parseVTT vttBytes
                in Program (m\<lparr>loading := False, list := list_New (toListItems ts),
                              transcriptItems := ts,
                              statuses := statuses m @ [''Transcript already exists locally'']\<rparr>))
         else Program m)"

subsection \<open>A small session\<close>

text \<open>
  The transcript of the examples: two segments, \<open>a\<close> from 00:00:01.000 to 00:00:02.000
  and \<open>b\<close> from 00:00:02.000 to 00:00:05.000, the cursor on \<open>b\<close>, nothing selected, and a
  list component that ignores every key.
\<close>

definition exampleTranscript :: "TranscriptItem list" where
  "exampleTranscript =
     [\<lparr>StartTime = ''00:00:01.000'', EndTime = ''00:00:02.000'', Text = ''a''\<rparr>,
      \<lparr>StartTime = ''00:00:02.000'', EndTime = ''00:00:05.000'', Text = ''b''\<rparr>]"

definition itemA :: item where
  "itemA = \<lparr>title = ''a'', timestamp = ''00:00:01.000 - 00:00:02.000'', selected = False\<rparr>"

definition itemB :: item where
  "itemB = \<lparr>title = ''b'', timestamp = ''00:00:02.000 - 00:00:05.000'', selected = False\<rparr>"

definition exampleModel :: model where
  "exampleModel =
     \<lparr>loading = False, loadingMsg = ''Extracting audio with ffmpeg...'',
      list = \<lparr>Items = [itemA, itemB], Index = 1\<rparr>, quitting = False,
      inputFile = ''talk.mp4'', errorMsg = [], transcriptItems = exampleTranscript,
      statuses = [''Transcript already exists locally'']\<rparr>"

definition noListUpdate :: "list_Model \<Rightarrow> string \<Rightarrow> list_Model \<times> bool" where
  "noListUpdate l k = (l, False)"

subsection \<open>The fields of a timecode\<close>

text \<open>The four fields of a timecode \<^verbatim>\<open>HH:MM:SS.mmm\<close>, as text.\<close>

definition hoursField :: "string \<Rightarrow> string" where
  "hoursField s = take 2 s"

definition minutesField :: "string \<Rightarrow> string" where
  "minutesField s = take 2 (drop 3 s)"

definition secondsField :: "string \<Rightarrow> string" where
  "secondsField s = take 2 (drop 6 s)"

definition millisField :: "string \<Rightarrow> string" where
  "millisField s = drop 9 s"

text \<open>
  A list item shows a transcript segment when it has the text and the timestamp that
  \<^verbatim>\<open>main\<close> and \<^verbatim>\<open>Update\<close> give the item made from it; the selected flag is free.
\<close>

definition itemOf :: "TranscriptItem \<Rightarrow> item \<Rightarrow> bool" where
  "itemOf t i = (title i = Text t \<and> timestamp i = StartTime t @ '' - '' @ EndTime t)"


subsection \<open>Segments and their spans\<close>

text \<open>The number of seconds that a timecode \<^verbatim>\<open>HH:MM:SS.mmm\<close> stands for.\<close>

definition timecodeSeconds :: "string \<Rightarrow> rat" where
  "timecodeSeconds s =
     of_int (decimal (hoursField s) * 3600 + decimal (minutesField s) * 60 + decimal (secondsField s))
     + of_int (decimal (millisField s)) / 1000"

text \<open>The span of a transcript segment, in seconds.\<close>

definition spanOf :: "TranscriptItem \<Rightarrow> segment" where
  "spanOf t = \<lparr>seg_start = timecodeSeconds (StartTime t), seg_end = timecodeSeconds (EndTime t)\<rparr>"

text \<open>The segments whose list items are selected, in the order of the transcript.\<close>

definition selectedSegments :: "TranscriptItem list \<Rightarrow> item list \<Rightarrow> TranscriptItem list" where
  "selectedSegments ts items = map fst (filter (\<lambda>(t, i). selected i) (zip ts items))"

subsection \<open>Errors of the planner and items with a bad timestamp\<close>

text \<open>The two errors that report a timecode the scanner refused.\<close>

definition isParseError :: "compile_error \<Rightarrow> bool" where
  "isParseError e = (case e of CouldNotParseStart x err \<Rightarrow> True | CouldNotParseEnd x err \<Rightarrow> True | _ \<Rightarrow> False)"

text \<open>A selected item whose timestamp has no separator, and one whose start time does not scan.\<close>

definition junkItem :: item where
  "junkItem = \<lparr>title = ''a'', timestamp = ''junk'', selected = True\<rparr>"

definition badItem :: item where
  "badItem = \<lparr>title = ''a'', timestamp = ''xx:00:01.000 - 00:00:02.000'', selected = True\<rparr>"

subsection \<open>Formatting seconds\<close>

text \<open>
  Modelled from the spec: \<^verbatim>\<open>format(seconds) -> text\<close>, which "renders back to
  \<^verbatim>\<open>HH:MM:SS.mmm\<close>, zero-padded" and is defined for non-negative input. The sources at
  hand have no function from seconds to a timecode (the program prints seconds with
  \<^verbatim>\<open>%.3f\<close> only). The seconds are rounded to the nearest millisecond, as \<^verbatim>\<open>%.3f\<close>
  rounds them.
\<close>

definition format :: "rat \<Rightarrow> string option" where
  "format x =
     (if x < 0 then None
      else
        let ms = nat (roundHalfEven (x * 1000))
        in Some (pad0 2 (ms div 3600000) @ '':'' @ pad0 2 (ms div 60000 mod 60) @ '':''
                 @ pad0 2 (ms div 1000 mod 60) @ ''.'' @ pad0 3 (ms mod 1000)))"

text \<open>
  The timecodes of the round-trip law: hours from 00 to 23, minutes and seconds from 00
  to 59, milliseconds from 000 to 999.
\<close>

definition valid_timecode :: "string \<Rightarrow> bool" where
  "valid_timecode s =
     (wf_timecode s \<and> decimal (hoursField s) \<le> 23 \<and> decimal (minutesField s) \<le> 59
      \<and> decimal (secondsField s) \<le> 59)"

subsection \<open>A transcript file\<close>

text \<open>The message that reports the extracted audio.\<close>

definition isAudioExtracted :: "msg \<Rightarrow> bool" where
  "isAudioExtracted x = (case x of audioExtractedMsg f \<Rightarrow> True | _ \<Rightarrow> False)"

text \<open>
  A transcript file \<^verbatim>\<open>talk.vtt\<close> with the two segments of the small session, and a file
  system that holds this file only.
\<close>

definition exampleVtt :: string where
  "exampleVtt =
     ''WEBVTT'' @ [CHR 0x0A, CHR 0x0A]
     @ ''00:00:01.000 --> 00:00:02.000'' @ [CHR 0x0A] @ ''a'' @ [CHR 0x0A, CHR 0x0A]
     @ ''00:00:02.000 --> 00:00:05.000'' @ [CHR 0x0A] @ ''b'' @ [CHR 0x0A]"

definition exampleExists :: "string \<Rightarrow> bool" where
  "exampleExists path = (path = ''talk.vtt'')"

definition exampleReadFile :: "string \<Rightarrow> string option" where
  "exampleReadFile path = (if path = ''talk.vtt'' then Some exampleVtt else None)"

section \<open>Properties of the selection controller\<close>

subsection \<open>Toggling the selection\<close>

lemma Update_toggle:
  assumes "k = ''enter'' \<or> k = '' ''"
  shows "Update lu m (KeyMsg k) =
     (if \<not> loading m \<and> 0 \<le> Index (list m) \<and> Index (list m) < int (length (Items (list m)))
      then (m\<lparr>list := (list m)\<lparr>Items := (Items (list m))[nat (Index (list m)) :=
               (Items (list m) ! nat (Index (list m)))
                 \<lparr>selected := \<not> selected (Items (list m) ! nat (Index (list m)))\<rparr>]\<rparr>\<rparr>, [])
      else (m, []))"
  using assms by (auto simp: Update_def SetItems_def Let_def)

text \<open>
  Claim C6. With items in the list, a valid cursor and nothing loading, the toggle key
  (\<open>enter\<close> or space) flips the selected flag of the item at the cursor, and a second
  press, with nothing in between, gives back the model of before the first: the flag has
  its original value, and so has everything else. Neither press returns a command.
\<close>

theorem toggle_twice_restores:
  assumes k: "k = ''enter'' \<or> k = '' ''"
    and nl: "\<not> loading m"
    and ne: "Items (list m) \<noteq> []"
    and lo: "0 \<le> Index (list m)"
    and hi: "Index (list m) < int (length (Items (list m)))"
  shows "selected (Items (list (fst (Update lu m (KeyMsg k)))) ! nat (Index (list m)))
           = (\<not> selected (Items (list m) ! nat (Index (list m))))
       \<and> selected (Items (list (fst (Update lu (fst (Update lu m (KeyMsg k))) (KeyMsg k))))
                     ! nat (Index (list m)))
           = selected (Items (list m) ! nat (Index (list m)))
       \<and> fst (Update lu (fst (Update lu m (KeyMsg k))) (KeyMsg k)) = m
       \<and> snd (Update lu m (KeyMsg k)) = []"
proof -
  have n: "nat (Index (list m)) < length (Items (list m))"
    using lo hi by simp
  show ?thesis
    using nl lo hi n by (simp add: Update_toggle[OF k])
qed

theorem toggle_twice_restores_witness:
  "selected (Items (list (fst (Update noListUpdate exampleModel (KeyMsg ''enter'')))) ! 1)
   \<and> \<not> selected (Items (list (fst (Update noListUpdate
           (fst (Update noListUpdate exampleModel (KeyMsg ''enter''))) (KeyMsg ''enter'')))) ! 1)
   \<and> fst (Update noListUpdate (fst (Update noListUpdate exampleModel (KeyMsg ''enter'')))
           (KeyMsg ''enter'')) = exampleModel"
proof -
  have k: "''enter'' = ''enter'' \<or> ''enter'' = '' ''" by simp
  have nl: "\<not> loading exampleModel" by (simp add: exampleModel_def)
  have ne: "Items (list exampleModel) \<noteq> []" by (simp add: exampleModel_def)
  have lo: "0 \<le> Index (list exampleModel)" by (simp add: exampleModel_def)
  have hi: "Index (list exampleModel) < int (length (Items (list exampleModel)))"
    by (simp add: exampleModel_def)
  have ix: "nat (Index (list exampleModel)) = 1" by (simp add: exampleModel_def)
  have s: "\<not> selected (Items (list exampleModel) ! 1)"
    by (simp add: exampleModel_def itemB_def)
  from toggle_twice_restores[OF k nl ne lo hi, of noListUpdate] ix s
  show ?thesis by simp
qed

text \<open>
  Claim C10. The toggle key changes at most the selected flag of the item at the cursor:
  the cursor and the number of items stay, every other item is the same item, the item
  at the cursor keeps its title and its timestamp, no other field of the model changes
  and no command is returned.
\<close>

theorem toggle_frame:
  assumes k: "k = ''enter'' \<or> k = '' ''"
    and lo: "0 \<le> Index (list m)"
    and hi: "Index (list m) < int (length (Items (list m)))"
    and upd: "Update lu m (KeyMsg k) = (m', c)"
  shows "Index (list m') = Index (list m)
       \<and> length (Items (list m')) = length (Items (list m))
       \<and> (\<forall>j. j \<noteq> nat (Index (list m)) \<longrightarrow> Items (list m') ! j = Items (list m) ! j)
       \<and> title (Items (list m') ! nat (Index (list m)))
           = title (Items (list m) ! nat (Index (list m)))
       \<and> timestamp (Items (list m') ! nat (Index (list m)))
           = timestamp (Items (list m) ! nat (Index (list m)))
       \<and> m' = m\<lparr>list := (list m)\<lparr>Items := Items (list m')\<rparr>\<rparr>
       \<and> c = []"
proof -
  have n: "nat (Index (list m)) < length (Items (list m))"
    using lo hi by simp
  show ?thesis
    using upd n by (auto simp: Update_toggle[OF k] split: if_splits)
qed

theorem toggle_frame_witness:
  "Update noListUpdate exampleModel (KeyMsg '' '')
     = (exampleModel\<lparr>list := \<lparr>Items = [itemA, itemB\<lparr>selected := True\<rparr>], Index = 1\<rparr>\<rparr>, [])
   \<and> Index (list (fst (Update noListUpdate exampleModel (KeyMsg '' '')))) = 1
   \<and> Items (list (fst (Update noListUpdate exampleModel (KeyMsg '' '')))) ! 0 = itemA
   \<and> title (Items (list (fst (Update noListUpdate exampleModel (KeyMsg '' '')))) ! 1) = ''b''
   \<and> timestamp (Items (list (fst (Update noListUpdate exampleModel (KeyMsg '' '')))) ! 1)
       = ''00:00:02.000 - 00:00:05.000''"
proof -
  have k: "'' '' = ''enter'' \<or> '' '' = '' ''" by simp
  have lo: "0 \<le> Index (list exampleModel)" by (simp add: exampleModel_def)
  have hi: "Index (list exampleModel) < int (length (Items (list exampleModel)))"
    by (simp add: exampleModel_def)
  have u: "Update noListUpdate exampleModel (KeyMsg '' '')
     = (exampleModel\<lparr>list := \<lparr>Items = [itemA, itemB\<lparr>selected := True\<rparr>], Index = 1\<rparr>\<rparr>, [])"
    by (simp add: Update_toggle exampleModel_def itemB_def)
  have ix: "nat (Index (list exampleModel)) = 1" by (simp add: exampleModel_def)
  have its: "Items (list exampleModel) = [itemA, itemB]" by (simp add: exampleModel_def)
  from toggle_frame[OF k lo hi u] ix its u
  show ?thesis by (simp add: itemB_def)
qed

subsection \<open>Compiling with nothing selected\<close>

lemma collectSegments_none_selected:
  "\<forall>i \<in> set items. \<not> selected i \<Longrightarrow> collectSegments items acc = Inr acc"
  by (induction items arbitrary: acc) auto

text \<open>
  Claim C4. When no item is selected, the compile key changes nothing and returns no
  command: the model, with its items, its cursor and its loading flag, is the one of
  before, and no \<open>compileVideoCmd\<close> reaches the runtime. The planner itself refuses such
  a list with \<open>NoSegmentsSelected\<close>, before it asks for ffmpeg: the result does not
  depend on \<open>ffmpeg\<close>.
\<close>

theorem compile_rejected_without_selection:
  assumes none: "\<forall>i \<in> set (Items (list m)). \<not> selected i"
  shows "Update lu m (KeyMsg ''c'') = (m, [])
       \<and> compilePlan (Items (list m)) = Inl NoSegmentsSelected
       \<and> compileVideoSegments outputPath ffmpeg (inputFile m) (Items (list m))
           = Inl NoSegmentsSelected"
proof -
  have "\<not> list_ex selected (Items (list m))"
    using none by (simp add: list_ex_iff)
  then have u: "Update lu m (KeyMsg ''c'') = (m, [])"
    by (simp add: Update_def Let_def)
  have p: "compilePlan (Items (list m)) = Inl NoSegmentsSelected"
    by (simp add: compilePlan_def collectSegments_none_selected[OF none])
  show ?thesis using u p by (simp add: compileVideoSegments_def)
qed

theorem compile_rejected_without_selection_witness:
  "Update noListUpdate exampleModel (KeyMsg ''c'') = (exampleModel, [])
   \<and> \<not> loading exampleModel
   \<and> compilePlan [itemA, itemB] = Inl NoSegmentsSelected
   \<and> compileVideoSegments (\<lambda>f. ''out.mp4'') (\<lambda>args. True) ''talk.mp4'' [itemA, itemB]
       = Inl NoSegmentsSelected"
proof -
  have none: "\<forall>i \<in> set (Items (list exampleModel)). \<not> selected i"
    by (simp add: exampleModel_def itemA_def itemB_def)
  have its: "Items (list exampleModel) = [itemA, itemB]" by (simp add: exampleModel_def)
  have f: "inputFile exampleModel = ''talk.mp4''" by (simp add: exampleModel_def)
  have nl: "\<not> loading exampleModel" by (simp add: exampleModel_def)
  from compile_rejected_without_selection[OF none, of noListUpdate "\<lambda>f. ''out.mp4''" "\<lambda>args. True"]
    its f nl
  show ?thesis by simp
qed

subsection \<open>Operations in flight\<close>

lemma Update_loading_key:
  "loading m \<Longrightarrow> Update lu m (KeyMsg k) =
      (if k = ''q'' \<or> k = ''ctrl+c'' then (m\<lparr>quitting := True\<rparr>, [tea_Quit]) else (m, []))"
  by (simp add: Update_def)

lemma Update_loading_step:
  assumes "loading m" and "\<not> resolves x"
  shows "loading (fst (Update lu m x))
       \<and> (\<forall>c \<in> set (snd (Update lu m x)). \<not> isPreview c \<and> \<not> isCompile c)"
  using assms
  by (cases x) (auto simp: Update_loading_key resolves_def isPreview_def isCompile_def Update_def)

lemma run_loading:
  assumes "loading m" and "\<forall>x \<in> set xs. \<not> resolves x"
  shows "loading (fst (run lu m xs))
       \<and> (\<forall>c \<in> set (snd (run lu m xs)). \<not> isPreview c \<and> \<not> isCompile c)"
  using assms
proof (induction xs arbitrary: m)
  case Nil
  then show ?case by simp
next
  case (Cons x xs)
  obtain m1 c1 where u: "Update lu m x = (m1, c1)" by (cases "Update lu m x")
  obtain m2 c2 where r: "run lu m1 xs = (m2, c2)" by (cases "run lu m1 xs")
  from Cons.prems have nx: "\<not> resolves x" and nxs: "\<forall>y \<in> set xs. \<not> resolves y" by auto
  from Update_loading_step[OF Cons.prems(1) nx, of lu] u
  have l1: "loading m1" and c1: "\<forall>c \<in> set c1. \<not> isPreview c \<and> \<not> isCompile c" by auto
  from Cons.IH[OF l1 nxs] r
  have "loading m2" and "\<forall>c \<in> set c2. \<not> isPreview c \<and> \<not> isCompile c" by auto
  with c1 u r show ?case by auto
qed

text \<open>
  Claim C5, as the program has it. A compile request that is accepted sets the loading
  flag, and as long as no message that ends the loading arrives (the result of the
  compilation, an error, a finished transcription), every message, the preview key and
  the compile key among them, leaves the flag set and starts neither a preview nor a
  compilation. So at most one compilation is in flight. A preview sets no flag: it is
  started and forgotten, and does not hold back later requests.
\<close>

theorem one_compile_in_flight:
  assumes upd: "Update lu m (KeyMsg ''c'') = (m1, cs)"
    and disp: "\<exists>c \<in> set cs. isCompile c"
    and pending: "\<forall>x \<in> set xs. \<not> resolves x"
  shows "loading m1
       \<and> loading (fst (run lu m1 xs))
       \<and> (\<forall>c \<in> set (snd (run lu m1 xs)). \<not> isPreview c \<and> \<not> isCompile c)"
proof -
  have l1: "loading m1"
    using upd disp by (auto simp: Update_def Let_def isCompile_def split: if_splits)
  from run_loading[OF l1 pending] l1 show ?thesis by simp
qed

theorem one_compile_in_flight_witness:
  "loading (fst (run noListUpdate
       (exampleModel\<lparr>list := \<lparr>Items = [itemA, itemB\<lparr>selected := True\<rparr>], Index = 1\<rparr>,
                      loading := True, loadingMsg := ''Compiling video segments with ffmpeg...''\<rparr>)
       [KeyMsg ''p'', KeyMsg ''c'', spinner_TickMsg]))
   \<and> \<not> list_ex isPreview (snd (run noListUpdate
       (exampleModel\<lparr>list := \<lparr>Items = [itemA, itemB\<lparr>selected := True\<rparr>], Index = 1\<rparr>,
                      loading := True, loadingMsg := ''Compiling video segments with ffmpeg...''\<rparr>)
       [KeyMsg ''p'', KeyMsg ''c'', spinner_TickMsg]))
   \<and> \<not> list_ex isCompile (snd (run noListUpdate
       (exampleModel\<lparr>list := \<lparr>Items = [itemA, itemB\<lparr>selected := True\<rparr>], Index = 1\<rparr>,
                      loading := True, loadingMsg := ''Compiling video segments with ffmpeg...''\<rparr>)
       [KeyMsg ''p'', KeyMsg ''c'', spinner_TickMsg]))"
proof -
  let ?m = "exampleModel\<lparr>list := \<lparr>Items = [itemA, itemB\<lparr>selected := True\<rparr>], Index = 1\<rparr>\<rparr>"
  have u: "Update noListUpdate ?m (KeyMsg ''c'')
     = (?m\<lparr>loading := True, loadingMsg := ''Compiling video segments with ffmpeg...''\<rparr>,
        [spinner_Tick, compileVideoCmd ''talk.mp4'' [itemA, itemB\<lparr>selected := True\<rparr>]])"
    by (simp add: Update_def Let_def exampleModel_def itemA_def itemB_def)
  have d: "\<exists>c \<in> set [spinner_Tick, compileVideoCmd ''talk.mp4'' [itemA, itemB\<lparr>selected := True\<rparr>]].
             isCompile c"
    by (simp add: isCompile_def)
  have p: "\<forall>x \<in> set [KeyMsg ''p'', KeyMsg ''c'', spinner_TickMsg]. \<not> resolves x"
    by (simp add: resolves_def)
  from one_compile_in_flight[OF u d p] show ?thesis
    by (simp add: list_ex_iff)
qed

text \<open>
  The claim as the specification states it fails: two presses of the preview key, with
  no message between them, start two previews, and the compile key pressed next starts
  a compilation beside them.
\<close>

theorem previews_are_not_exclusive:
  "snd (run noListUpdate exampleModel
          [KeyMsg ''enter'', KeyMsg ''p'', KeyMsg ''p'', KeyMsg ''c''])
     = [go_previewVideo ''talk.mp4'' ''00:00:02.000'' ''00:00:12.000'',
        go_previewVideo ''talk.mp4'' ''00:00:02.000'' ''00:00:12.000'',
        spinner_Tick,
        compileVideoCmd ''talk.mp4'' [itemA, itemB\<lparr>selected := True\<rparr>]]"
  by code_simp

section \<open>Properties of the timestamp utilities\<close>

subsection \<open>Splitting and scanning a timecode\<close>

declare Split.simps [simp del]

lemma Index_no_sep: "sep \<noteq> [] \<Longrightarrow> hd sep \<notin> set s \<Longrightarrow> strings_Index s sep = None"
  by (induction s) (auto simp: prefix_def neq_Nil_conv)

lemma Index_at_sep:
  "sep \<noteq> [] \<Longrightarrow> hd sep \<notin> set a \<Longrightarrow> strings_Index (a @ sep @ b) sep = Some (length a)"
  by (induction a) (auto simp: prefix_def neq_Nil_conv)

lemma Split_no_sep: "sep \<noteq> [] \<Longrightarrow> hd sep \<notin> set s \<Longrightarrow> Split s sep = [s]"
  by (subst Split.simps) (simp add: Index_no_sep)

lemma Split_at_sep:
  "sep \<noteq> [] \<Longrightarrow> hd sep \<notin> set a \<Longrightarrow> Split (a @ sep @ b) sep = a # Split b sep"
  by (subst Split.simps) (simp add: Index_at_sep)

lemma isDigit_facts:
  assumes "isDigit c"
  shows "c \<noteq> CHR '':''" "c \<noteq> CHR ''.''" "c \<noteq> CHR '' ''" "c \<noteq> CHR ''_''" "c \<noteq> CHR 0x0A"
    "c \<noteq> CHR ''+''" "c \<noteq> CHR ''-''"
    "\<not> isSpace c" "\<not> isSign c" "isDigitOrUnderscore c" "\<not> 128 \<le> (of_char c :: nat)"
    "0 \<le> digitVal c" "digitVal c \<le> 9"
  using assms by (auto simp: isDigit_def isSpace_def isSign_def isDigitOrUnderscore_def digitVal_def)

lemma wf_timecodeE:
  assumes "wf_timecode s"
  obtains h1 h2 m1 m2 s1 s2 d1 d2 d3 where
    "s = [h1, h2, CHR '':'', m1, m2, CHR '':'', s1, s2, CHR ''.'', d1, d2, d3]"
    "isDigit h1" "isDigit h2" "isDigit m1" "isDigit m2" "isDigit s1" "isDigit s2"
    "isDigit d1" "isDigit d2" "isDigit d3"
  using assms by (cases s rule: wf_timecode.cases) auto

lemma Split_timecode_colon:
  assumes "isDigit h1" "isDigit h2" "isDigit m1" "isDigit m2" "isDigit s1" "isDigit s2"
    "isDigit d1" "isDigit d2" "isDigit d3"
  shows "Split [h1, h2, CHR '':'', m1, m2, CHR '':'', s1, s2, CHR ''.'', d1, d2, d3] '':''
         = [[h1, h2], [m1, m2], [s1, s2, CHR ''.'', d1, d2, d3]]"
proof -
  have a: "Split ([h1, h2] @ '':'' @ [m1, m2, CHR '':'', s1, s2, CHR ''.'', d1, d2, d3]) '':''
        = [h1, h2] # Split [m1, m2, CHR '':'', s1, s2, CHR ''.'', d1, d2, d3] '':''"
    by (rule Split_at_sep) (use assms in \<open>auto dest: isDigit_facts(1)\<close>)
  have b: "Split ([m1, m2] @ '':'' @ [s1, s2, CHR ''.'', d1, d2, d3]) '':''
        = [m1, m2] # Split [s1, s2, CHR ''.'', d1, d2, d3] '':''"
    by (rule Split_at_sep) (use assms in \<open>auto dest: isDigit_facts(1)\<close>)
  have c: "Split [s1, s2, CHR ''.'', d1, d2, d3] '':'' = [[s1, s2, CHR ''.'', d1, d2, d3]]"
    by (rule Split_no_sep) (use assms in \<open>auto dest: isDigit_facts(1)\<close>)
  from a b c show ?thesis by simp
qed

lemma Split_seconds_period:
  assumes "isDigit s1" "isDigit s2" "isDigit d1" "isDigit d2" "isDigit d3"
  shows "Split [s1, s2, CHR ''.'', d1, d2, d3] ''.'' = [[s1, s2], [d1, d2, d3]]"
proof -
  have a: "Split ([s1, s2] @ ''.'' @ [d1, d2, d3]) ''.'' = [s1, s2] # Split [d1, d2, d3] ''.''"
    by (rule Split_at_sep) (use assms in \<open>auto dest: isDigit_facts(2)\<close>)
  have b: "Split [d1, d2, d3] ''.'' = [[d1, d2, d3]]"
    by (rule Split_no_sep) (use assms in \<open>auto dest: isDigit_facts(2)\<close>)
  from a b show ?thesis by simp
qed

lemma scanInt_two_digits:
  assumes "isDigit a" "isDigit b" "rest = [] \<or> \<not> isDigitOrUnderscore (hd rest)"
  shows "scanInt (a # b # rest) = Inr (10 * digitVal a + digitVal b, rest)"
proof -
  have tw: "takeWhile isDigitOrUnderscore (a # b # rest) = [a, b]"
    using assms by (cases rest) (auto dest: isDigit_facts(10))
  have dw: "dropWhile isDigitOrUnderscore (a # b # rest) = rest"
    using assms by (cases rest) (auto dest: isDigit_facts(10))
  have v: "decimal [a, b] = 10 * digitVal a + digitVal b"
    by (simp add: decimal_def)
  have r: "0 \<le> 10 * digitVal a + digitVal b" "10 * digitVal a + digitVal b \<le> 99"
    using isDigit_facts(12,13)[OF assms(1)] isDigit_facts(12,13)[OF assms(2)] by auto
  have sk: "SkipSpace (a # b # rest) = Inr (a # b # rest)"
    using isDigit_facts(5,8,11)[OF assms(1)] by simp
  show ?thesis
    unfolding scanInt_def sk using isDigit_facts(9,4,7)[OF assms(1)] isDigit_facts(4)[OF assms(2)] r
    by (simp add: tw dw v Let_def del: takeWhile.simps dropWhile.simps)
qed

lemma wrap64_id: "- (2 ^ 63) \<le> x \<Longrightarrow> x < 2 ^ 63 \<Longrightarrow> wrap64 x = x"
  unfolding wrap64_def by (simp add: signed_of_int signed_take_bit_int_eq_self)



lemma dec_digit: "n < 10 \<Longrightarrow> dec n = [digitChar n]"
  by (subst dec.simps) simp

lemma dec_two: "10 \<le> n \<Longrightarrow> n < 100 \<Longrightarrow> dec n = [digitChar (n div 10), digitChar (n mod 10)]"
  by (subst dec.simps) (simp add: dec_digit)

lemma digitChar_0: "digitChar 0 = CHR ''0''"
  by code_simp

lemma fmt_02d_two:
  "0 \<le> v \<Longrightarrow> v < 100 \<Longrightarrow> fmt_02d v = [digitChar (nat v div 10), digitChar (nat v mod 10)]"
  by (cases "v < 10") (auto simp: fmt_02d_def fmt_d_def dec_digit dec_two digitChar_0)

lemma isDigit_digitChar: "d < 10 \<Longrightarrow> isDigit (digitChar d)"
  by (simp add: isDigit_def digitChar_def)

lemma digitVal_digitChar: "d < 10 \<Longrightarrow> digitVal (digitChar d) = int d"
  by (simp add: digitVal_def digitChar_def)

lemma digitChar_digitVal: "isDigit c \<Longrightarrow> digitChar (nat (digitVal c)) = c"
  by (simp add: digitVal_def digitChar_def isDigit_def nat_diff_distrib)

lemma Sscanf_d_two_digits:
  "isDigit a \<Longrightarrow> isDigit b \<Longrightarrow> Sscanf_d [a, b] = Inr (10 * digitVal a + digitVal b)"
  by (simp add: Sscanf_d_def scanInt_two_digits)

lemma addSeconds_timecode:
  assumes d: "isDigit h1" "isDigit h2" "isDigit m1" "isDigit m2" "isDigit s1" "isDigit s2"
    "isDigit d1" "isDigit d2" "isDigit d3"
    and n: "0 \<le> n" "10 * digitVal s1 + digitVal s2 + n < 2 ^ 63"
  shows "addSecondsToTimestamp [h1, h2, CHR '':'', m1, m2, CHR '':'', s1, s2, CHR ''.'', d1, d2, d3] n
       = [h1, h2, CHR '':'', m1, m2, CHR '':''] @ fmt_02d (min (10 * digitVal s1 + digitVal s2 + n) 59)
         @ [CHR ''.'', d1, d2, d3]"
proof -
  have r: "0 \<le> 10 * digitVal s1 + digitVal s2"
    using isDigit_facts(12)[OF d(5)] isDigit_facts(12)[OF d(6)] by simp
  have w: "wrap64 (10 * digitVal s1 + digitVal s2 + n) = 10 * digitVal s1 + digitVal s2 + n"
    using r n by (intro wrap64_id) auto
  show ?thesis
    unfolding addSecondsToTimestamp_def
    by (simp add: Split_timecode_colon[OF d] Split_seconds_period[OF d(5-9)]
        Sscanf_d_two_digits[OF d(5,6)] w Let_def min_def)
qed

lemma addSeconds_timecode_wrap:
  assumes d: "isDigit h1" "isDigit h2" "isDigit m1" "isDigit m2" "isDigit s1" "isDigit s2"
    "isDigit d1" "isDigit d2" "isDigit d3"
  shows "addSecondsToTimestamp [h1, h2, CHR '':'', m1, m2, CHR '':'', s1, s2, CHR ''.'', d1, d2, d3] n
       = [h1, h2, CHR '':'', m1, m2, CHR '':'']
         @ fmt_02d (if 60 \<le> wrap64 (10 * digitVal s1 + digitVal s2 + n) then 59
                    else wrap64 (10 * digitVal s1 + digitVal s2 + n))
         @ [CHR ''.'', d1, d2, d3]"
  unfolding addSecondsToTimestamp_def
  by (simp add: Split_timecode_colon[OF d] Split_seconds_period[OF d(5-9)]
      Sscanf_d_two_digits[OF d(5,6)] Let_def)

lemma wrap64_overflow: "wrap64 9223372036854775808 = - 9223372036854775808"
  by (simp add: wrap64_def)

lemma digitChar_simps:
  "digitChar 0 = CHR ''0''" "digitChar 1 = CHR ''1''" "digitChar 2 = CHR ''2''"
  "digitChar 3 = CHR ''3''" "digitChar 4 = CHR ''4''" "digitChar 5 = CHR ''5''"
  "digitChar 6 = CHR ''6''" "digitChar 7 = CHR ''7''" "digitChar 8 = CHR ''8''"
  "digitChar 9 = CHR ''9''" "digitChar (Suc 0) = CHR ''1''"
  by code_simp+

lemma dec_2_63: "dec 9223372036854775808 = ''9223372036854775808''"
  by (simp add: dec.simps digitChar_simps)

subsection \<open>Adding seconds\<close>

lemma addSeconds_fields:
  assumes wf: "wf_timecode s"
    and n: "0 \<le> n" "decimal (secondsField s) + n < 2 ^ 63"
  shows "wf_timecode (addSecondsToTimestamp s n)
       \<and> hoursField (addSecondsToTimestamp s n) = hoursField s
       \<and> minutesField (addSecondsToTimestamp s n) = minutesField s
       \<and> millisField (addSecondsToTimestamp s n) = millisField s
       \<and> decimal (secondsField (addSecondsToTimestamp s n)) = min (decimal (secondsField s) + n) 59
       \<and> addSecondsToTimestamp s n
           = take 6 s @ fmt_02d (min (decimal (secondsField s) + n) 59) @ drop 8 s"
proof -
  from wf obtain h1 h2 m1 m2 s1 s2 d1 d2 d3 where
    s: "s = [h1, h2, CHR '':'', m1, m2, CHR '':'', s1, s2, CHR ''.'', d1, d2, d3]"
    and d: "isDigit h1" "isDigit h2" "isDigit m1" "isDigit m2" "isDigit s1" "isDigit s2"
      "isDigit d1" "isDigit d2" "isDigit d3"
    by (erule wf_timecodeE)
  define ss where "ss = 10 * digitVal s1 + digitVal s2"
  define v where "v = min (ss + n) 59"
  define x where "x = digitChar (nat v div 10)"
  define y where "y = digitChar (nat v mod 10)"
  have sf: "decimal (secondsField s) = ss"
    by (simp add: s secondsField_def decimal_def ss_def)
  have r: "0 \<le> ss"
    using isDigit_facts(12)[OF d(5)] isDigit_facts(12)[OF d(6)] by (simp add: ss_def)
  have vb: "0 \<le> v" "v < 100" using r n(1) by (auto simp: v_def)
  have f: "fmt_02d v = [x, y]"
    unfolding x_def y_def by (rule fmt_02d_two[OF vb])
  have n2: "10 * digitVal s1 + digitVal s2 + n < 2 ^ 63"
    using n(2) sf by (simp add: ss_def)
  have a: "addSecondsToTimestamp s n
      = [h1, h2, CHR '':'', m1, m2, CHR '':'', x, y, CHR ''.'', d1, d2, d3]"
    unfolding s addSeconds_timecode[OF d n(1) n2] using f by (simp add: v_def ss_def)
  have lt: "nat v div 10 < 10" "nat v mod 10 < 10" using vb by auto
  have xy: "isDigit x" "isDigit y"
    unfolding x_def y_def by (rule isDigit_digitChar[OF lt(1)], rule isDigit_digitChar[OF lt(2)])
  have ar: "10 * int (nat v div 10) + int (nat v mod 10) = v"
    using vb by (simp add: zdiv_int zmod_int)
  have dv: "decimal [x, y] = v"
    using ar by (simp add: decimal_def x_def y_def digitVal_digitChar[OF lt(1)] digitVal_digitChar[OF lt(2)])
  have 1: "wf_timecode (addSecondsToTimestamp s n)"
    unfolding a using d xy by simp
  have 2: "hoursField (addSecondsToTimestamp s n) = hoursField s"
    unfolding a by (simp add: s hoursField_def)
  have 3: "minutesField (addSecondsToTimestamp s n) = minutesField s"
    unfolding a by (simp add: s minutesField_def)
  have 4: "millisField (addSecondsToTimestamp s n) = millisField s"
    unfolding a by (simp add: s millisField_def)
  have 5: "decimal (secondsField (addSecondsToTimestamp s n)) = v"
    unfolding a using dv by (simp add: secondsField_def)
  have 6: "addSecondsToTimestamp s n = take 6 s @ fmt_02d v @ drop 8 s"
    unfolding a f by (simp add: s)
  show ?thesis
    unfolding sf using 1 2 3 4 5[unfolded v_def] 6[unfolded v_def] by (intro conjI)
qed

text \<open>
  Claim C2, as the program has it. For a timecode of the form \<^verbatim>\<open>HH:MM:SS.mmm\<close> and a
  number \<open>n \<ge> 0\<close> with \<open>SS + n\<close> inside the 64 bits of an \<^verbatim>\<open>int\<close>, the result of
  \<^verbatim>\<open>addSecondsToTimestamp\<close> is again such a timecode, with the same hours, minutes and
  milliseconds, whose seconds field is \<open>SS + n\<close> when that is below 60 and 59 otherwise:
  nothing is carried into the minutes.
\<close>

theorem addSeconds_clamps:
  assumes wf: "wf_timecode s"
    and n: "0 \<le> n" "decimal (secondsField s) + n < 2 ^ 63"
  shows "wf_timecode (addSecondsToTimestamp s n)
       \<and> hoursField (addSecondsToTimestamp s n) = hoursField s
       \<and> minutesField (addSecondsToTimestamp s n) = minutesField s
       \<and> millisField (addSecondsToTimestamp s n) = millisField s
       \<and> decimal (secondsField (addSecondsToTimestamp s n)) = min (decimal (secondsField s) + n) 59
       \<and> addSecondsToTimestamp s n
           = take 6 s @ fmt_02d (min (decimal (secondsField s) + n) 59) @ drop 8 s"
  using wf n by (rule addSeconds_fields)

theorem addSeconds_clamps_witness:
  "wf_timecode ''00:00:55.000''
   \<and> addSecondsToTimestamp ''00:00:55.000'' 10 = ''00:00:59.000''
   \<and> addSecondsToTimestamp ''00:01:00.000'' 10 = ''00:01:10.000''"
proof -
  have wf1: "wf_timecode ''00:00:55.000''" by (simp add: isDigit_def)
  have wf2: "wf_timecode ''00:01:00.000''" by (simp add: isDigit_def)
  have n: "(0::int) \<le> 10" by simp
  have s1: "decimal (secondsField ''00:00:55.000'') = 55"
    by (simp add: secondsField_def decimal_def digitVal_def)
  have s2: "decimal (secondsField ''00:01:00.000'') = 0"
    by (simp add: secondsField_def decimal_def digitVal_def)
  have b1: "decimal (secondsField ''00:00:55.000'') + 10 < 2 ^ 63" by (simp add: s1)
  have b2: "decimal (secondsField ''00:01:00.000'') + 10 < 2 ^ 63" by (simp add: s2)
  have f: "fmt_02d 59 = ''59''" "fmt_02d 10 = ''10''"
    by (simp_all add: fmt_02d_two digitChar_simps)
  from addSeconds_clamps[OF wf1 n b1] addSeconds_clamps[OF wf2 n b2] wf1
  show ?thesis by (simp add: s1 s2 f)
qed

text \<open>
  The claim as the specification states it, for every \<open>n \<ge> 0\<close>, fails where the sum leaves
  the 64 bits: the seconds field 01 and \<open>n = 2\<^sup>6\<^sup>3 - 1\<close> wrap around to \<open>-2\<^sup>6\<^sup>3\<close>,
  which is below 60 and is printed as it is.
\<close>

theorem addSeconds_wraps_around:
  "addSecondsToTimestamp ''00:00:01.000'' 9223372036854775807
     = ''00:00:-9223372036854775808.000''"
proof -
  have d: "isDigit (CHR ''0'')" "isDigit (CHR ''1'')" by (simp_all add: isDigit_def)
  have v: "digitVal (CHR ''0'') = 0" "digitVal (CHR ''1'') = 1" by (simp_all add: digitVal_def)
  show ?thesis
    by (simp add: addSeconds_timecode_wrap d v wrap64_overflow fmt_02d_def fmt_d_def dec_2_63)
qed

subsection \<open>The preview range\<close>

lemma wf_timecode_no_space: "wf_timecode s \<Longrightarrow> CHR '' '' \<notin> set s"
  by (erule wf_timecodeE) (auto dest: isDigit_facts(3))





subsection \<open>Parsing a timecode\<close>

lemma float64Overflow_large: "1000 \<le> float64Overflow"
  by (simp add: float64Overflow_def)

lemma isDigit_letters:
  assumes "isDigit c"
  shows "c \<notin> set ''nNiI''" "c \<notin> set ''iI''" "c \<notin> set ''eEpP''" "c \<noteq> CHR ''x''" "c \<noteq> CHR ''X''"
  using assms by (auto simp: isDigit_def)

lemma scanFloat_seconds:
  assumes d: "isDigit s1" "isDigit s2" "isDigit d1" "isDigit d2" "isDigit d3"
  shows "scanFloat [s1, s2, CHR ''.'', d1, d2, d3]
       = Inr (of_int (decimal [s1, s2]) + of_int (decimal [d1, d2, d3]) / 1000, [])"
proof -
  let ?s = "[s1, s2, CHR ''.'', d1, d2, d3]"
  have sk: "SkipSpace ?s = Inr ?s"
    using isDigit_facts(5,8,11)[OF d(1)] by simp
  have ip: "takeWhile isDigitOrUnderscore ?s = [s1, s2]"
    using d by (auto dest: isDigit_facts(10) simp: isDigitOrUnderscore_def isDigit_def)
  have r: "dropWhile isDigitOrUnderscore ?s = [CHR ''.'', d1, d2, d3]"
    using d by (auto dest: isDigit_facts(10) simp: isDigitOrUnderscore_def isDigit_def)
  have fp: "takeWhile isDigitOrUnderscore [d1, d2, d3] = [d1, d2, d3]"
    using d by (auto dest: isDigit_facts(10))
  have rest: "dropWhile isDigitOrUnderscore [d1, d2, d3] = []"
    using d by (auto dest: isDigit_facts(10))
  have px: "\<not> prefix ''0x'' ?s" "\<not> prefix ''0X'' ?s"
    using isDigit_letters(4,5)[OF d(2)] by simp_all
  have b1: "0 \<le> decimal [s1, s2]" "decimal [s1, s2] \<le> 99"
    using isDigit_facts(12,13)[OF d(1)] isDigit_facts(12,13)[OF d(2)] by (auto simp: decimal_def)
  have b2: "0 \<le> decimal [d1, d2, d3]" "decimal [d1, d2, d3] \<le> 999"
    using isDigit_facts(12,13)[OF d(3)] isDigit_facts(12,13)[OF d(4)] isDigit_facts(12,13)[OF d(5)]
    by (auto simp: decimal_def)
  have "(of_int (decimal [s1, s2]) :: rat) + of_int (decimal [d1, d2, d3]) / 1000 \<le> 99 + 999 / 1000"
    using b1(2) b2(2) by (intro add_mono divide_right_mono) auto
  then have small: "\<not> float64Overflow \<le> of_int (decimal [s1, s2]) + of_int (decimal [d1, d2, d3]) / 1000"
    using float64Overflow_large by linarith
  have us: "CHR ''_'' \<notin> set ([s1, s2] @ [d1, d2, d3])"
    using d by (auto dest: isDigit_facts(4))
  show ?thesis
    unfolding scanFloat_def sk
    using isDigit_letters(1,2)[OF d(1)] isDigit_facts(9,7)[OF d(1)] px small us
    by (simp add: ip r fp rest Let_def del: takeWhile.simps dropWhile.simps set_simps)
qed


lemma decimal_two_bounds:
  assumes "isDigit a" "isDigit b"
  shows "0 \<le> decimal [a, b]" "decimal [a, b] \<le> 99" "decimal [a, b] = 10 * digitVal a + digitVal b"
  using isDigit_facts(12,13)[OF assms(1)] isDigit_facts(12,13)[OF assms(2)]
  by (auto simp: decimal_def)

lemma Sscanf_timecode:
  assumes d: "isDigit h1" "isDigit h2" "isDigit m1" "isDigit m2" "isDigit s1" "isDigit s2"
    "isDigit d1" "isDigit d2" "isDigit d3"
  shows "Sscanf_d_d_f [h1, h2, CHR '':'', m1, m2, CHR '':'', s1, s2, CHR ''.'', d1, d2, d3]
       = Inr (decimal [h1, h2], decimal [m1, m2],
              of_int (decimal [s1, s2]) + of_int (decimal [d1, d2, d3]) / 1000)"
proof -
  have nd: "\<not> isDigitOrUnderscore (CHR '':'')"
    by (simp add: isDigitOrUnderscore_def isDigit_def)
  have a: "scanInt (h1 # h2 # CHR '':'' # [m1, m2, CHR '':'', s1, s2, CHR ''.'', d1, d2, d3])
         = Inr (10 * digitVal h1 + digitVal h2, CHR '':'' # [m1, m2, CHR '':'', s1, s2, CHR ''.'', d1, d2, d3])"
    by (rule scanInt_two_digits[OF d(1,2)]) (simp add: nd)
  have b: "scanInt (m1 # m2 # CHR '':'' # [s1, s2, CHR ''.'', d1, d2, d3])
         = Inr (10 * digitVal m1 + digitVal m2, CHR '':'' # [s1, s2, CHR ''.'', d1, d2, d3])"
    by (rule scanInt_two_digits[OF d(3,4)]) (simp add: nd)
  show ?thesis
    unfolding Sscanf_d_d_f_def
    using a b scanFloat_seconds[OF d(5-9)]
    by (simp add: scanLiteral_def decimal_two_bounds(3)[OF d(1,2)] decimal_two_bounds(3)[OF d(3,4)])
qed

lemma parseTimeToSeconds_timecode:
  assumes "wf_timecode s"
  shows "parseTimeToSeconds s = Inr (timecodeSeconds s)"
proof -
  from assms obtain h1 h2 m1 m2 s1 s2 d1 d2 d3 where
    s: "s = [h1, h2, CHR '':'', m1, m2, CHR '':'', s1, s2, CHR ''.'', d1, d2, d3]"
    and d: "isDigit h1" "isDigit h2" "isDigit m1" "isDigit m2" "isDigit s1" "isDigit s2"
      "isDigit d1" "isDigit d2" "isDigit d3"
    by (erule wf_timecodeE)
  have wh: "wrap64 (decimal [h1, h2] * 3600) = decimal [h1, h2] * 3600"
    using decimal_two_bounds(1,2)[OF d(1,2)] by (intro wrap64_id) auto
  have wm: "wrap64 (decimal [m1, m2] * 60) = decimal [m1, m2] * 60"
    using decimal_two_bounds(1,2)[OF d(3,4)] by (intro wrap64_id) auto
  have f: "hoursField s = [h1, h2]" "minutesField s = [m1, m2]" "secondsField s = [s1, s2]"
    "millisField s = [d1, d2, d3]"
    by (simp_all add: s hoursField_def minutesField_def secondsField_def millisField_def)
  have p: "parseTimeToSeconds s
         = Inr (of_int (decimal [h1, h2] * 3600) + of_int (decimal [m1, m2] * 60)
                + (of_int (decimal [s1, s2]) + of_int (decimal [d1, d2, d3]) / 1000))"
    unfolding parseTimeToSeconds_def s Sscanf_timecode[OF d] by (simp add: wh wm)
  show ?thesis unfolding p timecodeSeconds_def f by simp
qed

section \<open>Properties of the compile planner\<close>

lemma Split_timestamp:
  assumes "wf_timecode a" "wf_timecode b"
  shows "Split (a @ '' - '' @ b) '' - '' = [a, b]"
proof -
  have "Split (a @ '' - '' @ b) '' - '' = a # Split b '' - ''"
    by (rule Split_at_sep) (use wf_timecode_no_space[OF assms(1)] in auto)
  moreover have "Split b '' - '' = [b]"
    by (rule Split_no_sep) (use wf_timecode_no_space[OF assms(2)] in auto)
  ultimately show ?thesis by simp
qed

lemma collectSegments_step:
  assumes "itemOf t i" "wf_timecode (StartTime t)" "wf_timecode (EndTime t)"
  shows "collectSegments (i # rest) acc
       = collectSegments rest (if selected i then acc @ [spanOf t] else acc)"
proof -
  have sp: "Split (timestamp i) '' - '' = [StartTime t, EndTime t]"
    using assms(1) Split_timestamp[OF assms(2,3)] by (simp add: itemOf_def)
  show ?thesis
    by (simp add: sp parseTimeToSeconds_timecode[OF assms(2)] parseTimeToSeconds_timecode[OF assms(3)]
        spanOf_def)
qed

lemma collectSegments_transcript:
  assumes "list_all2 itemOf ts items"
    and "\<forall>t \<in> set ts. wf_timecode (StartTime t) \<and> wf_timecode (EndTime t)"
  shows "collectSegments items acc = Inr (acc @ map spanOf (selectedSegments ts items))"
  using assms
proof (induction ts items arbitrary: acc rule: list_all2_induct)
  case Nil
  then show ?case by (simp add: selectedSegments_def)
next
  case (Cons t ts i items)
  from Cons.prems have wt: "wf_timecode (StartTime t)" "wf_timecode (EndTime t)"
    and wts: "\<forall>t \<in> set ts. wf_timecode (StartTime t) \<and> wf_timecode (EndTime t)" by auto
  show ?case
    unfolding collectSegments_step[OF Cons.hyps(1) wt] Cons.IH[OF wts]
    by (simp add: selectedSegments_def)
qed





lemma roundHalfEven_of_int: "roundHalfEven (of_int k) = k"
  by (simp add: roundHalfEven_def)


lemma timecodeSeconds_thousandths:
  "timecodeSeconds s
     = of_int ((decimal (hoursField s) * 3600 + decimal (minutesField s) * 60
                + decimal (secondsField s)) * 1000 + decimal (millisField s)) / 1000"
  by (simp add: timecodeSeconds_def add_divide_distrib)


subsection \<open>The spans and the filter of a selection\<close>

lemma fmt_3f_example: "fmt_3f 2 = ''2.000''" "fmt_3f 5 = ''5.000''"
  by code_simp+

lemma timecodeSeconds_example:
  "timecodeSeconds ''00:00:02.000'' = 2" "timecodeSeconds ''00:00:05.000'' = 5"
  by (simp_all add: timecodeSeconds_def hoursField_def minutesField_def secondsField_def
      millisField_def decimal_def digitVal_def)

lemma collectSegments_itemB:
  "collectSegments [itemB\<lparr>selected := True\<rparr>] acc = Inr (acc @ [\<lparr>seg_start = 2, seg_end = 5\<rparr>])"
proof -
  let ?ts = "[\<lparr>StartTime = ''00:00:02.000'', EndTime = ''00:00:05.000'', Text = ''b''\<rparr>]"
  have rel: "list_all2 itemOf ?ts [itemB\<lparr>selected := True\<rparr>]"
    by (simp add: itemB_def itemOf_def)
  have wf: "\<forall>t \<in> set ?ts. wf_timecode (StartTime t) \<and> wf_timecode (EndTime t)"
    by (simp add: isDigit_def)
  have s: "selectedSegments ?ts [itemB\<lparr>selected := True\<rparr>] = ?ts"
    by (simp add: selectedSegments_def itemB_def)
  show ?thesis
    using collectSegments_transcript[OF rel wf, of acc]
    by (simp add: s spanOf_def timecodeSeconds_example)
qed





subsection \<open>Timecodes that do not scan\<close>

lemma collectSegments_parse_error:
  assumes "i \<in> set items" and "selected i" and "Split (timestamp i) '' - '' = [a, b]"
    and "parseTimeToSeconds a = Inl e \<or> parseTimeToSeconds b = Inl e"
  shows "\<exists>err. collectSegments items acc = Inl err \<and> isParseError err"
  using assms(1)
proof (induction items arbitrary: acc)
  case Nil
  then show ?case by simp
next
  case (Cons x xs)
  show ?case
  proof (cases "x = i")
    case True
    then show ?thesis
      using assms(2,3,4) by (auto simp: isParseError_def Let_def split: sum.splits)
  next
    case False
    with Cons.prems have "i \<in> set xs" by simp
    from Cons.IH[OF this] show ?thesis
      by (auto simp: Let_def isParseError_def split: sum.splits)
  qed
qed

text \<open>
  Claim C8, as the program has it. When a selected item has a timestamp that splits at
  \<^verbatim>\<open>" - "\<close> into exactly two parts and the scanner refuses one of them with an error of
  the library, the planner fails with a could-not-parse error, and so does
  \<^verbatim>\<open>compileVideoSegments\<close>, whatever ffmpeg would do: no plan is made and ffmpeg is not
  asked.
\<close>

theorem malformed_timecode_rejected:
  assumes "i \<in> set items" and "selected i" and "Split (timestamp i) '' - '' = [a, b]"
    and "parseTimeToSeconds a = Inl e \<or> parseTimeToSeconds b = Inl e"
    and "e \<noteq> Unsupported"
  shows "\<exists>err. isParseError err \<and> compilePlan items = Inl err
           \<and> compileVideoSegments outputPath ffmpeg f items = Inl err"
proof -
  from collectSegments_parse_error[OF assms(1-4), of "[]"]
  obtain err where "collectSegments items [] = Inl err" and "isParseError err" by blast
  then show ?thesis
    by (auto simp: compilePlan_def compileVideoSegments_def)
qed

lemma Split_bad: "Split ''xx:00:01.000 - 00:00:02.000'' '' - '' = [''xx:00:01.000'', ''00:00:02.000'']"
  by code_simp

lemma parse_bad: "parseTimeToSeconds ''xx:00:01.000'' = Inl ExpectedInteger"
  by code_simp

lemma Split_junk: "Split ''junk'' '' - '' = [''junk'']"
  by code_simp

theorem malformed_timecode_rejected_witness:
  "compilePlan [itemA, badItem] = Inl (CouldNotParseStart ''xx:00:01.000'' ExpectedInteger)
   \<and> compileVideoSegments (\<lambda>f. ''out.mp4'') (\<lambda>args. True) ''talk.mp4'' [itemA, badItem]
       = Inl (CouldNotParseStart ''xx:00:01.000'' ExpectedInteger)"
proof -
  have 1: "badItem \<in> set [itemA, badItem]" by simp
  have 2: "selected badItem" by (simp add: badItem_def)
  have 3: "Split (timestamp badItem) '' - '' = [''xx:00:01.000'', ''00:00:02.000'']"
    by (simp add: badItem_def Split_bad)
  have 4: "parseTimeToSeconds ''xx:00:01.000'' = Inl ExpectedInteger
           \<or> parseTimeToSeconds ''00:00:02.000'' = Inl ExpectedInteger"
    by (simp add: parse_bad)
  have 5: "ExpectedInteger \<noteq> Unsupported" by simp
  have c: "compilePlan [itemA, badItem] = Inl (CouldNotParseStart ''xx:00:01.000'' ExpectedInteger)"
    by (simp add: compilePlan_def itemA_def badItem_def Split_bad parse_bad)
  from malformed_timecode_rejected[OF 1 2 3 4 5, of "\<lambda>f. ''out.mp4''" "\<lambda>args. True" "''talk.mp4''"] c
  show ?thesis by auto
qed

text \<open>
  The claim as the specification states it fails: a selected item whose timestamp does
  not split into two parts is passed over without an error, and the compilation goes on
  with the other selected items.
\<close>

theorem malformed_timestamp_is_skipped:
  "selected junkItem \<and> timestamp junkItem = ''junk''
   \<and> compilePlan [junkItem, itemB\<lparr>selected := True\<rparr>]
     = Inr \<lparr>segments = [\<lparr>seg_start = 2, seg_end = 5\<rparr>],
            selectFilter = ''between(t,2.000,5.000)'',
            vf = ''select='' @ [CHR 0x27] @ ''between(t,2.000,5.000)'' @ [CHR 0x27] @ '',setpts=N/FRAME_RATE/TB'',
            af = ''aselect='' @ [CHR 0x27] @ ''between(t,2.000,5.000)'' @ [CHR 0x27] @ '',asetpts=N/SR/TB''\<rparr>"
proof -
  have c: "collectSegments [junkItem, itemB\<lparr>selected := True\<rparr>] []
         = collectSegments [itemB\<lparr>selected := True\<rparr>] []"
    by (simp add: junkItem_def Split_junk del: collectSegments.simps(2))
       (simp add: junkItem_def Split_junk)
  show ?thesis
    unfolding compilePlan_def c collectSegments_itemB
    by (simp add: junkItem_def filterPart_def fmt_3f_example)
qed

text \<open>
  The scanner is also more liberal than the form \<^verbatim>\<open>HH:MM:SS.mmm\<close>: it takes fields of any
  width and ignores what follows the seconds.
\<close>

lemma lenient_scan:
  "parseTimeToSeconds ''1:2:3'' = Inr 3723"
  using float64Overflow_large
  by (simp add: parseTimeToSeconds_def Sscanf_d_d_f_def scanInt_def scanFloat_def scanLiteral_def
      isSpace_def isSign_def isDigitOrUnderscore_def isDigit_def decimal_def digitVal_def Let_def
      wrap64_id)

lemma lenient_scan2:
  "parseTimeToSeconds ''00:00:01.5xyz'' = Inr (3 / 2)"
  using float64Overflow_large
  by (simp add: parseTimeToSeconds_def Sscanf_d_d_f_def scanInt_def scanFloat_def scanLiteral_def
      isSpace_def isSign_def isDigitOrUnderscore_def isDigit_def decimal_def digitVal_def Let_def
      wrap64_id)

section \<open>The round trip of formatting and parsing\<close>

lemma decimal_snoc: "decimal (ds @ [c]) = 10 * decimal ds + digitVal c"
  by (simp add: decimal_def)

lemma decimal_nonneg: "\<forall>c \<in> set ds. isDigit c \<Longrightarrow> 0 \<le> decimal ds"
proof (induction ds rule: rev_induct)
  case Nil
  then show ?case by (simp add: decimal_def)
next
  case (snoc c ds)
  then have "0 \<le> decimal ds" and "0 \<le> digitVal c" by (auto dest: isDigit_facts(12))
  then show ?case by (simp add: decimal_snoc)
qed

lemma dec_snoc:
  assumes "d < 10"
  shows "dec (10 * v + d) = (if v = 0 then [digitChar d] else dec v @ [digitChar d])"
  using assms by (subst dec.simps) auto

lemma pad0_decimal:
  assumes "ds \<noteq> []" and "\<forall>c \<in> set ds. isDigit c"
  shows "pad0 (length ds) (nat (decimal ds)) = ds"
  using assms
proof (induction ds rule: rev_nonempty_induct)
  case (single c)
  then have c: "isDigit c" by simp
  have "nat (decimal [c]) = nat (digitVal c)" by (simp add: decimal_def)
  moreover have "nat (digitVal c) < 10" using isDigit_facts(12,13)[OF c] by simp
  ultimately show ?case
    by (simp add: pad0_def dec_digit digitChar_digitVal[OF c])
next
  case (snoc c ds)
  then have c: "isDigit c" and ds: "\<forall>c \<in> set ds. isDigit c" by auto
  define v where "v = nat (decimal ds)"
  define d where "d = nat (digitVal c)"
  have d10: "d < 10" using isDigit_facts(12,13)[OF c] by (simp add: d_def)
  have dc: "digitChar d = c" unfolding d_def by (rule digitChar_digitVal[OF c])
  have v': "nat (decimal (ds @ [c])) = 10 * v + d"
    using decimal_nonneg[OF ds] isDigit_facts(12)[OF c]
    by (simp add: decimal_snoc v_def d_def nat_add_distrib nat_mult_distrib)
  have ih: "replicate (length ds - length (dec v)) (CHR ''0'') @ dec v = ds"
    using snoc.IH[OF ds] by (simp add: pad0_def v_def)
  have le: "length (dec v) \<le> length ds"
  proof (rule ccontr)
    assume "\<not> length (dec v) \<le> length ds"
    then have "length ds - length (dec v) = 0" and "length ds < length (dec v)" by auto
    with ih show False by (metis append_Nil less_irrefl replicate_0)
  qed
  show ?case
  proof (cases "v = 0")
    case True
    have z: "dec 0 = ''0''" by (simp add: dec_digit digitChar_0)
    have "ds = replicate (length ds) (CHR ''0'')"
      using ih le snoc.hyps unfolding True z
      by (cases "length ds") (auto simp: replicate_append_same)
    then show ?thesis
      unfolding v' True by (simp add: pad0_def dec_digit d10 dc)
  next
    case False
    have "dec (10 * v + d) = dec v @ [c]"
      using False by (simp add: dec_snoc[OF d10] dc)
    then show ?thesis
      unfolding v' using ih le by (simp add: pad0_def Suc_diff_le)
  qed
qed

lemma fields_arith:
  fixes h m s d :: nat
  assumes "m < 60" "s < 60" "d < 1000"
  defines "k \<equiv> (h * 3600 + m * 60 + s) * 1000 + d"
  shows "k div 3600000 = h" "k div 60000 mod 60 = m" "k div 1000 mod 60 = s" "k mod 1000 = d"
proof -
  define p where "p = m + 60 * h"
  define q where "q = s + 60 * p"
  have k: "k = d + 1000 * q" by (simp add: k_def q_def p_def)
  have a: "k div 1000 = q" "k mod 1000 = d"
    unfolding k using assms(3) by simp_all
  have b: "q div 60 = p" "q mod 60 = s"
    unfolding q_def using assms(2) by simp_all
  have c: "p div 60 = h" "p mod 60 = m"
    unfolding p_def using assms(1) by simp_all
  have d1: "k div 60000 = p"
  proof -
    have "k div 60000 = (k div 1000) div 60" by (simp add: div_mult2_eq)
    then show ?thesis by (simp add: a b)
  qed
  have d2: "k div 3600000 = h"
  proof -
    have "k div 3600000 = (k div 60000) div 60" by (simp add: div_mult2_eq)
    then show ?thesis by (simp add: d1 c)
  qed
  show "k div 3600000 = h" by (rule d2)
  show "k div 60000 mod 60 = m" by (simp add: d1 c)
  show "k div 1000 mod 60 = s" by (simp add: a b)
  show "k mod 1000 = d" by (rule a)
qed

lemma roundHalfEven_of_nat: "roundHalfEven (of_nat k) = int k"
  using roundHalfEven_of_int[of "int k"] by simp

lemma roundHalfEven_near:
  assumes "\<bar>y - of_int k\<bar> < 1 / 2"
  shows "roundHalfEven y = k"
proof (cases "of_int k \<le> y")
  case True
  with assms have "y < of_int k + 1 / 2" by linarith
  with True have fl: "\<lfloor>y\<rfloor> = k" by (intro floor_unique) auto
  show ?thesis
    unfolding roundHalfEven_def fl using \<open>y < of_int k + 1 / 2\<close> by (simp add: Let_def)
next
  case False
  with assms have b: "of_int k - 1 / 2 < y" "y < of_int k" by linarith+
  then have fl: "\<lfloor>y\<rfloor> = k - 1" by (intro floor_unique) auto
  show ?thesis
    unfolding roundHalfEven_def fl using b by (simp add: Let_def)
qed

lemma format_near_timecode:
  assumes "valid_timecode s" and "0 \<le> y" and "\<bar>y - timecodeSeconds s\<bar> < 1 / 2000"
  shows "format y = Some s"
proof -
  from assms(1) have wf: "wf_timecode s"
    and mb: "decimal (minutesField s) \<le> 59" and sb: "decimal (secondsField s) \<le> 59"
    by (simp_all add: valid_timecode_def)
  from wf obtain h1 h2 m1 m2 s1 s2 d1 d2 d3 where
    s: "s = [h1, h2, CHR '':'', m1, m2, CHR '':'', s1, s2, CHR ''.'', d1, d2, d3]"
    and dg: "isDigit h1" "isDigit h2" "isDigit m1" "isDigit m2" "isDigit s1" "isDigit s2"
      "isDigit d1" "isDigit d2" "isDigit d3"
    by (erule wf_timecodeE)
  have f: "hoursField s = [h1, h2]" "minutesField s = [m1, m2]" "secondsField s = [s1, s2]"
    "millisField s = [d1, d2, d3]"
    by (simp_all add: s hoursField_def minutesField_def secondsField_def millisField_def)
  define h where "h = nat (decimal [h1, h2])"
  define m where "m = nat (decimal [m1, m2])"
  define sc where "sc = nat (decimal [s1, s2])"
  define d where "d = nat (decimal [d1, d2, d3])"
  have nn: "0 \<le> decimal [h1, h2]" "0 \<le> decimal [m1, m2]" "0 \<le> decimal [s1, s2]"
    "0 \<le> decimal [d1, d2, d3]"
    using dg by (auto intro!: decimal_nonneg)
  have d3b: "decimal [d1, d2, d3] \<le> 999"
    using isDigit_facts(13)[OF dg(7)] isDigit_facts(13)[OF dg(8)] isDigit_facts(13)[OF dg(9)]
    by (simp add: decimal_def)
  have iv: "decimal [h1, h2] = int h" "decimal [m1, m2] = int m" "decimal [s1, s2] = int sc"
    "decimal [d1, d2, d3] = int d"
    using nn by (simp_all add: h_def m_def sc_def d_def)
  have bd: "m < 60" "sc < 60" "d < 1000"
    using mb sb d3b nn by (simp_all add: f m_def sc_def d_def)
  define k where "k = (h * 3600 + m * 60 + sc) * 1000 + d"
  have x: "timecodeSeconds s = of_int (int k) / 1000"
    unfolding timecodeSeconds_thousandths f iv k_def by simp
  have "\<bar>y * 1000 - of_int (int k)\<bar> = \<bar>y - timecodeSeconds s\<bar> * 1000"
    unfolding x by (simp add: abs_if field_simps)
  also have "\<dots> < 1 / 2" using assms(3) by simp
  finally have lt: "\<bar>y * 1000 - of_int (int k)\<bar> < 1 / 2" .
  have r: "nat (roundHalfEven (y * 1000)) = k"
    unfolding roundHalfEven_near[OF lt] by simp
  have p2: "pad0 2 h = [h1, h2]" "pad0 2 m = [m1, m2]" "pad0 2 sc = [s1, s2]"
    using pad0_decimal[of "[h1, h2]"] pad0_decimal[of "[m1, m2]"] pad0_decimal[of "[s1, s2]"] dg
    by (simp_all add: h_def m_def sc_def numeral_2_eq_2)
  have p3: "pad0 3 d = [d1, d2, d3]"
    using pad0_decimal[of "[d1, d2, d3]"] dg by (simp add: d_def numeral_3_eq_3)
  show ?thesis
    unfolding format_def r using assms(2)
    by (simp add: Let_def fields_arith[OF bd, of h, folded k_def] p2 p3 s)
qed

lemma timecodeSeconds_nonneg: "wf_timecode s \<Longrightarrow> 0 \<le> timecodeSeconds s"
  by (erule wf_timecodeE)
     (auto simp: timecodeSeconds_def hoursField_def minutesField_def secondsField_def
        millisField_def intro!: add_nonneg_nonneg decimal_nonneg divide_nonneg_nonneg)

text \<open>
  Claim C9. For a timecode \<^verbatim>\<open>HH:MM:SS.mmm\<close> with hours from 00 to 23, minutes and seconds
  from 00 to 59 and milliseconds from 000 to 999, \<^verbatim>\<open>parseTimeToSeconds\<close> succeeds and
  \<open>format\<close> of its result is the timecode again. (By \<open>format_near_timecode\<close> the same
  holds for every number of seconds less than half a millisecond away from the parsed
  value, which covers the rounding of a \<^verbatim>\<open>float64\<close>.)
\<close>

theorem format_parse_roundtrip:
  assumes "valid_timecode s"
  shows "\<exists>x. parseTimeToSeconds s = Inr x \<and> format x = Some s"
proof -
  from assms have wf: "wf_timecode s" by (simp add: valid_timecode_def)
  have "format (timecodeSeconds s) = Some s"
    by (rule format_near_timecode[OF assms timecodeSeconds_nonneg[OF wf]]) simp
  with parseTimeToSeconds_timecode[OF wf] show ?thesis by blast
qed

theorem format_parse_roundtrip_witness:
  "valid_timecode ''23:59:59.999''
   \<and> parseTimeToSeconds ''23:59:59.999'' = Inr (86399999 / 1000)
   \<and> format (86399999 / 1000) = Some ''23:59:59.999''"
proof -
  have v: "valid_timecode ''23:59:59.999''"
    by (simp add: valid_timecode_def isDigit_def hoursField_def minutesField_def secondsField_def
        decimal_def digitVal_def)
  have wf: "wf_timecode ''23:59:59.999''" by (simp add: isDigit_def)
  have t: "timecodeSeconds ''23:59:59.999'' = 86399999 / 1000"
    by (simp add: timecodeSeconds_def hoursField_def minutesField_def secondsField_def
        millisField_def decimal_def digitVal_def)
  have p: "parseTimeToSeconds ''23:59:59.999'' = Inr (86399999 / 1000)"
    using parseTimeToSeconds_timecode[OF wf] by (simp add: t)
  from format_parse_roundtrip[OF v] obtain x where
    x: "parseTimeToSeconds ''23:59:59.999'' = Inr x" and fx: "format x = Some ''23:59:59.999''"
    by blast
  from x p have "x = 86399999 / 1000" by (simp only: sum.inject)
  with fx have "format (86399999 / 1000) = Some ''23:59:59.999''" by (simp only:)
  with v p show ?thesis by (intro conjI)
qed

section \<open>Starting from a saved transcript\<close>

lemma Update_no_transcription:
  assumes "\<not> isAudioExtracted x"
  shows "\<forall>c \<in> set (snd (Update lu m x)). \<not> isExtractOrTranscribe c"
proof (cases x)
  case (KeyMsg k)
  show ?thesis
    unfolding KeyMsg
    by (auto simp: Update_def Let_def isExtractOrTranscribe_def split: prod.splits if_splits)
next
  case (audioExtractedMsg f)
  with assms show ?thesis by (simp add: isAudioExtracted_def)
qed (auto simp: Update_def isExtractOrTranscribe_def)

lemma run_no_transcription:
  assumes "\<forall>x \<in> set xs. \<not> isAudioExtracted x"
  shows "\<forall>c \<in> set (snd (run lu m xs)). \<not> isExtractOrTranscribe c"
  using assms
proof (induction xs arbitrary: m)
  case Nil
  then show ?case by simp
next
  case (Cons x xs)
  obtain m1 c1 where u: "Update lu m x = (m1, c1)" by (cases "Update lu m x")
  obtain m2 c2 where r: "run lu m1 xs = (m2, c2)" by (cases "run lu m1 xs")
  from Cons.prems have nx: "\<not> isAudioExtracted x" and nxs: "\<forall>y \<in> set xs. \<not> isAudioExtracted y"
    by auto
  from Update_no_transcription[OF nx, of lu m] u
  have c1: "\<forall>c \<in> set c1. \<not> isExtractOrTranscribe c" by simp
  from Cons.IH[OF nxs, of m1] r
  have c2: "\<forall>c \<in> set c2. \<not> isExtractOrTranscribe c" by simp
  from c1 c2 u r show ?case by auto
qed

lemma no_transcript_file_extracts:
  assumes "\<not> exists (vttFileOf f)"
  shows "\<exists>m. initialModel exists readFile f = Program m \<and> loading m
           \<and> Init m = [spinner_Tick, extractAudioCmd f]"
  using assms by (simp add: initialModel_def Let_def Init_def)

text \<open>
  Claim C7. When the transcript file of the input (its base name with the extension
  \<^verbatim>\<open>.vtt\<close>) is there and can be read, the program starts with a model that is not
  loading and holds the segments parsed from the file, as transcript and as list items.
  \<^verbatim>\<open>Init\<close> of this model returns no command, so no audio is extracted; and since a
  transcription is only started by the message that reports the extracted audio, no run
  of messages without that message starts an extraction or a transcription.
\<close>

theorem sidecar_skips_transcription:
  assumes ex: "exists (vttFileOf f)"
    and rd: "readFile (vttFileOf f) = Some content"
  shows "\<exists>m. initialModel exists readFile f = Program m
           \<and> \<not> loading m
           \<and> transcriptItems m = parseVTT content
           \<and> Items (list m) = toListItems (parseVTT content)
           \<and> Init m = []
           \<and> (\<forall>lu xs. (\<forall>x \<in> set xs. \<not> isAudioExtracted x)
                 \<longrightarrow> (\<forall>c \<in> set (snd (run lu m xs)). \<not> isExtractOrTranscribe c))"
proof -
  obtain m where m: "initialModel exists readFile f = Program m"
    and l: "\<not> loading m" and t: "transcriptItems m = parseVTT content"
    and i: "Items (list m) = toListItems (parseVTT content)"
    using ex rd by (simp add: initialModel_def Let_def list_New_def)
  have n: "Init m = []" using l by (simp add: Init_def)
  from m l t i n run_no_transcription show ?thesis by blast
qed

lemma parseVTT_example: "parseVTT exampleVtt = exampleTranscript"
  by code_simp

lemma vttFileOf_example: "vttFileOf ''talk.mp4'' = ''talk.vtt''"
  by code_simp

theorem sidecar_skips_transcription_witness:
  "initialModel exampleExists exampleReadFile ''talk.mp4''
     = Program (exampleModel\<lparr>list := list_New [itemA, itemB]\<rparr>)
   \<and> \<not> loading (exampleModel\<lparr>list := list_New [itemA, itemB]\<rparr>)
   \<and> Init (exampleModel\<lparr>list := list_New [itemA, itemB]\<rparr>) = []
   \<and> \<not> list_ex isExtractOrTranscribe
         (snd (run noListUpdate (exampleModel\<lparr>list := list_New [itemA, itemB]\<rparr>)
                 [KeyMsg ''enter'', KeyMsg ''p'', KeyMsg ''c'', spinner_TickMsg,
                  videoCompilationDoneMsg ''talk_compiled.mp4'']))"
proof -
  let ?m = "exampleModel\<lparr>list := list_New [itemA, itemB]\<rparr>"
  have ex: "exampleExists (vttFileOf ''talk.mp4'')"
    by (simp add: vttFileOf_example exampleExists_def)
  have rd: "exampleReadFile (vttFileOf ''talk.mp4'') = Some exampleVtt"
    by (simp add: vttFileOf_example exampleReadFile_def)
  have its: "toListItems exampleTranscript = [itemA, itemB]"
    by (simp add: toListItems_def exampleTranscript_def itemA_def itemB_def)
  have im: "initialModel exampleExists exampleReadFile ''talk.mp4'' = Program ?m"
    using ex rd by (simp add: initialModel_def Let_def parseVTT_example its exampleModel_def)
  have na: "\<forall>x \<in> set [KeyMsg ''enter'', KeyMsg ''p'', KeyMsg ''c'', spinner_TickMsg,
                  videoCompilationDoneMsg ''talk_compiled.mp4'']. \<not> isAudioExtracted x"
    by (simp add: isAudioExtracted_def)
  from sidecar_skips_transcription[where exists = exampleExists and readFile = exampleReadFile
      and f = "''talk.mp4''", OF ex rd]
  obtain m where a: "initialModel exampleExists exampleReadFile ''talk.mp4'' = Program m"
    and b: "\<not> loading m" and c: "Init m = []"
    and d: "\<forall>lu xs. (\<forall>x \<in> set xs. \<not> isAudioExtracted x)
                 \<longrightarrow> (\<forall>c \<in> set (snd (run lu m xs)). \<not> isExtractOrTranscribe c)"
    by blast
  from a im have e: "m = ?m" by simp
  from d na have "\<forall>c \<in> set (snd (run noListUpdate m
                 [KeyMsg ''enter'', KeyMsg ''p'', KeyMsg ''c'', spinner_TickMsg,
                  videoCompilationDoneMsg ''talk_compiled.mp4''])). \<not> isExtractOrTranscribe c"
    by blast
  then have f: "\<not> list_ex isExtractOrTranscribe (snd (run noListUpdate m
                 [KeyMsg ''enter'', KeyMsg ''p'', KeyMsg ''c'', spinner_TickMsg,
                  videoCompilationDoneMsg ''talk_compiled.mp4'']))"
    by (simp only: list_ex_iff) blast
  from im b c f show ?thesis unfolding e by (intro conjI)
qed

end
